theory Spec2Isabelle
  imports Main "HOL-Library.Sublist" "HOL-Library.AList"
begin

section \<open>The learn command: src/commands/learn.ts\<close>

subsection \<open>The file system as the walk sees it\<close>

text \<open>
  \<open>fs.readdirSync(dirPath, { withFileTypes: true })\<close> either throws or returns the
  directory's entries. What an entry answers to \<open>isDirectory()\<close> and \<open>isFile()\<close> is its
  constructor here; one that is neither (a symbolic link, a socket, a device) is
  \<open>Other\<close>. A directory entry carries what reading that directory gives:
  \<open>Readable entries\<close>, or \<open>Unreadable\<close> when \<open>readdirSync\<close> throws (permission denied,
  removed meanwhile).
\<close>

datatype dirent = File string | Directory string dir | Other string
and dir = Readable "dirent list" | Unreadable

text \<open>
  What a path resolves to: nothing (\<open>fs.existsSync\<close> is false), something whose
  \<open>fs.statSync(...).isDirectory()\<close> is false, or a directory.
\<close>

datatype inode = NotADirectory | DirectoryNode dir

type_synonym filesystem = "string \<rightharpoonup> inode"

datatype learn_error =
    PathDoesNotExist string
  | PathIsNotADirectory string
  | ReaddirFailed string

fun isFile :: "dirent \<Rightarrow> bool" where
  "isFile (File n) = True"
| "isFile (Directory n d) = False"
| "isFile (Other n) = False"

fun name :: "dirent \<Rightarrow> string" where
  "name (File n) = n"
| "name (Directory n d) = n"
| "name (Other n) = n"

text \<open>
  \<open>path.join(relativePath, entry.name)\<close> on POSIX, for the arguments the walk passes:
  \<open>relativePath\<close> is empty at the root and otherwise a path the walk has built, and an
  entry name returned by \<open>readdirSync\<close> is a single non-empty segment other than \<open>.\<close>
  and \<open>..\<close>, so that normalisation changes nothing.
\<close>

definition path_join :: "string \<Rightarrow> string \<Rightarrow> string" where
  "path_join relativePath entryName =
     (if relativePath = [] then entryName else relativePath @ ''/'' @ entryName)"

subsection \<open>Constant tables\<close>

text \<open>
  Each pattern of \<open>FILE_PATTERNS\<close> has the shape \<open>/\.(a|b|c)$/\<close>: it matches a name
  that ends with one of the listed suffixes. The table keeps the order of the object
  literal, which is the order \<open>Object.entries\<close> iterates in.
\<close>

definition FILE_PATTERNS :: "(string \<times> string list) list" where
  "FILE_PATTERNS =
    [(''javascript'', [''.js'', ''.mjs'', ''.cjs'']),
     (''typescript'', [''.ts'', ''.tsx'']),
     (''python'', [''.py'']),
     (''rust'', [''.rs'']),
     (''go'', [''.go'']),
     (''java'', [''.java'']),
     (''csharp'', [''.cs'']),
     (''ruby'', [''.rb'']),
     (''php'', [''.php'']),
     (''markdown'', [''.md'', ''.mdx'']),
     (''json'', [''.json'']),
     (''yaml'', [''.yaml'', ''.yml'']),
     (''toml'', [''.toml'']),
     (''html'', [''.html'', ''.htm'']),
     (''css'', [''.css'', ''.scss'', ''.sass'', ''.less''])]"

definition IGNORED_DIRS :: "string list" where
  "IGNORED_DIRS =
    [''node_modules'', ''.git'', ''.hg'', ''.svn'', ''dist'', ''build'', ''out'',
     ''target'', ''__pycache__'', ''.next'', ''.nuxt'', ''.cache'', ''coverage'',
     ''.nyc_output'', ''vendor'', ''venv'', ''.venv'', ''env'', ''.env'']"

definition PROJECT_INDICATORS :: "(string \<times> string list) list" where
  "PROJECT_INDICATORS =
    [(''node'', [''package.json'']),
     (''python'', [''setup.py'', ''pyproject.toml'', ''requirements.txt'', ''Pipfile'']),
     (''rust'', [''Cargo.toml'']),
     (''go'', [''go.mod'']),
     (''java'', [''pom.xml'', ''build.gradle'', ''build.gradle.kts'']),
     (''dotnet'', [''*.csproj'', ''*.sln'']),
     (''ruby'', [''Gemfile'']),
     (''php'', [''composer.json''])]"

subsection \<open>shouldIgnoreDir, detectFileType\<close>

definition startsWith :: "string \<Rightarrow> string \<Rightarrow> bool" where
  "startsWith s p = prefix p s"

definition endsWith :: "string \<Rightarrow> string \<Rightarrow> bool" where
  "endsWith s p = suffix p s"

definition shouldIgnoreDir :: "string \<Rightarrow> bool" where
  "shouldIgnoreDir dirName = (dirName \<in> set IGNORED_DIRS \<or> startsWith dirName ''.'')"

text \<open>\<open>pattern.test(filename)\<close> for a pattern given by its suffixes.\<close>

definition pattern_test :: "string list \<Rightarrow> string \<Rightarrow> bool" where
  "pattern_test alternatives filename = list_ex (endsWith filename) alternatives"

text \<open>The loop of \<open>detectFileType\<close>: the first pattern that matches decides.\<close>

fun detectFileType_loop :: "(string \<times> string list) list \<Rightarrow> string \<Rightarrow> string option" where
  "detectFileType_loop [] filename = None"
| "detectFileType_loop ((type, pattern) # rest) filename =
     (if pattern_test pattern filename then Some type
      else detectFileType_loop rest filename)"

definition detectFileType :: "string \<Rightarrow> string option" where
  "detectFileType filename = detectFileType_loop FILE_PATTERNS filename"

subsection \<open>scanDirectory\<close>

text \<open>
  The object \<open>result\<close> that \<open>scanDirectory\<close> mutates. \<open>filesByType\<close> is a JavaScript
  object used as a dictionary: an association list in insertion order, where assigning
  to a key that is present replaces its value in place (\<open>AList.update\<close>).
\<close>

record scan_result =
  files :: nat
  directories :: nat
  filesByType :: "(string \<times> nat) list"
  agentFiles :: "string list"

text \<open>\<open>result.filesByType[fileType] = (result.filesByType[fileType] || 0) + 1\<close>\<close>

definition increment :: "string \<Rightarrow> (string \<times> nat) list \<Rightarrow> (string \<times> nat) list" where
  "increment fileType counts =
     AList.update fileType ((case map_of counts fileType of None \<Rightarrow> 0 | Some c \<Rightarrow> c) + 1) counts"

text \<open>The branch \<open>else if (entry.isFile())\<close> of the loop, lines 338 to 349.\<close>

definition scanFile :: "string \<Rightarrow> string \<Rightarrow> scan_result \<Rightarrow> scan_result" where
  "scanFile relativePath entryName result =
     (let r1 = result\<lparr>files := files result + 1\<rparr>;
          r2 = (case detectFileType entryName of
                  Some fileType \<Rightarrow> r1\<lparr>filesByType := increment fileType (filesByType r1)\<rparr>
                | None \<Rightarrow> r1)
      in if entryName = ''AGENTS.md''
         then r2\<lparr>agentFiles := agentFiles r2 @ [path_join relativePath entryName]\<rparr>
         else r2)"

text \<open>
  \<open>scanDirectory\<close> takes the directory in place of its path and returns the flag
  together with the updated \<open>result\<close>. The \<open>try\<close>/\<open>catch\<close> around \<open>readdirSync\<close>
  is the case distinction on the directory; \<open>scanEntries\<close> is the \<open>for\<close> loop over
  the entries that are left.
\<close>

fun scanDirectory :: "dir \<Rightarrow> nat \<Rightarrow> scan_result \<Rightarrow> string \<Rightarrow> bool \<times> scan_result"
and scanEntries :: "dirent list \<Rightarrow> nat \<Rightarrow> scan_result \<Rightarrow> string \<Rightarrow> bool \<times> scan_result" where
  "scanDirectory d maxFiles result relativePath =
     (if files result \<ge> maxFiles then (True, result)
      else case d of
             Unreadable \<Rightarrow> (False, result)
           | Readable entries \<Rightarrow> scanEntries entries maxFiles result relativePath)"
| "scanEntries [] maxFiles result relativePath = (False, result)"
| "scanEntries (entry # rest) maxFiles result relativePath =
     (if files result \<ge> maxFiles then (True, result)
      else case entry of
             Directory entryName d \<Rightarrow>
               if \<not> shouldIgnoreDir entryName then
                 (case scanDirectory d maxFiles
                         (result\<lparr>directories := directories result + 1\<rparr>)
                         (path_join relativePath entryName) of
                    (truncated, result') \<Rightarrow>
                      if truncated then (True, result')
                      else scanEntries rest maxFiles result' relativePath)
               else scanEntries rest maxFiles result relativePath
           | File entryName \<Rightarrow>
               scanEntries rest maxFiles (scanFile relativePath entryName result) relativePath
           | Other entryName \<Rightarrow> scanEntries rest maxFiles result relativePath)"

subsection \<open>detectProjectTypes\<close>

text \<open>
  An indicator with a \<open>*\<close> becomes \<open>new RegExp(indicator.replace('*', '.*'))\<close>: the
  first \<open>*\<close> is replaced, and the rest of the indicator is read as a regular expression,
  so that its \<open>.\<close> stands for any character. The sources this gives for the table,
  \<open>.*.csproj\<close> and \<open>.*.sln\<close>, are sequences of atoms (\<open>.\<close> or a literal character), each
  possibly starred; \<open>RegExp\<close> compiles such a source. Without the \<open>s\<close> flag \<open>.\<close> does
  not match a line terminator (line feed and carriage return; the separators U+2028 and
  U+2029 are not among the characters of \<open>char\<close>). \<open>regexp_test\<close> is the unanchored
  \<open>pattern.test(f)\<close>.
\<close>

fun replace_star :: "string \<Rightarrow> string" where
  "replace_star [] = []"
| "replace_star (c # cs) = (if c = CHR ''*'' then ''.*'' @ cs else c # replace_star cs)"

datatype atom = AnyChar | Literal char

definition atom_of :: "char \<Rightarrow> atom" where
  "atom_of c = (if c = CHR ''.'' then AnyChar else Literal c)"

fun RegExp :: "string \<Rightarrow> (atom \<times> bool) list" where
  "RegExp [] = []"
| "RegExp [c] = [(atom_of c, False)]"
| "RegExp (c # d # cs) =
     (if d = CHR ''*'' then (atom_of c, True) # RegExp cs
      else (atom_of c, False) # RegExp (d # cs))"

fun atom_matches :: "atom \<Rightarrow> char \<Rightarrow> bool" where
  "atom_matches AnyChar c = (c \<noteq> CHR 0x0A \<and> c \<noteq> CHR 0x0D)"
| "atom_matches (Literal a) c = (a = c)"

fun match_here :: "(atom \<times> bool) list \<Rightarrow> string \<Rightarrow> bool" where
  "match_here [] s = True"
| "match_here ((a, False) # r) [] = False"
| "match_here ((a, False) # r) (c # cs) = (atom_matches a c \<and> match_here r cs)"
| "match_here ((a, True) # r) [] = match_here r []"
| "match_here ((a, True) # r) (c # cs) =
     (match_here r (c # cs) \<or> (atom_matches a c \<and> match_here ((a, True) # r) cs))"

fun regexp_test :: "(atom \<times> bool) list \<Rightarrow> string \<Rightarrow> bool" where
  "regexp_test r [] = match_here r []"
| "regexp_test r (c # cs) = (match_here r (c # cs) \<or> regexp_test r cs)"

text \<open>
  The inner loop over the indicators of one project type: true when it pushes the type
  and breaks. The parameter \<open>files\<close> of the source is \<open>fileNames\<close>.
\<close>

fun indicators_loop :: "string list \<Rightarrow> string list \<Rightarrow> bool" where
  "indicators_loop [] fileNames = False"
| "indicators_loop (indicator # rest) fileNames =
     (if CHR ''*'' \<in> set indicator then
        (if list_ex (regexp_test (RegExp (replace_star indicator))) fileNames then True
         else indicators_loop rest fileNames)
      else
        (if indicator \<in> set fileNames then True
         else indicators_loop rest fileNames))"

fun detectProjectTypes_loop ::
  "(string \<times> string list) list \<Rightarrow> string list \<Rightarrow> string list \<Rightarrow> string list" where
  "detectProjectTypes_loop [] fileNames types = types"
| "detectProjectTypes_loop ((projectType, indicators) # rest) fileNames types =
     detectProjectTypes_loop rest fileNames
       (if indicators_loop indicators fileNames then types @ [projectType] else types)"

definition detectProjectTypes :: "string \<Rightarrow> string list \<Rightarrow> string list" where
  "detectProjectTypes rootPath fileNames =
     (let types = detectProjectTypes_loop PROJECT_INDICATORS fileNames []
      in if length types > 0 then types else [''unknown''])"

subsection \<open>analyzeProject\<close>

text \<open>
  \<open>LearnResult\<close>. Its fields \<open>filesByType\<close> and \<open>agentFiles\<close> are \<open>lr_filesByType\<close> and
  \<open>lr_agentFiles\<close> here, the plain names being those of the scan's \<open>result\<close> object.
  The fields \<open>structure\<close> and \<open>conventions\<close> are left out: they are computed from the
  top-level names and, for \<open>conventions\<close>, one \<open>fs.existsSync\<close> of \<open>.github/workflows\<close>
  below the root, by code that cannot throw, and nothing below depends on them.
\<close>

record LearnResult =
  rootPath :: string
  totalFiles :: nat
  totalDirectories :: nat
  projectTypes :: "string list"
  lr_filesByType :: "(string \<times> nat) list"
  lr_agentFiles :: "string list"
  durationMs :: int
  truncated :: bool

text \<open>
  \<open>analyzeProject\<close> reads the file system and, twice, the clock: \<open>startTime\<close> and
  \<open>endTime\<close> are the two values of \<open>Date.now()\<close>. Its parameter \<open>rootPath\<close> is \<open>root\<close>
  here. A \<open>throw\<close> is \<open>Inl\<close>. The root is
  read twice, by \<open>analyzeProject\<close> itself (outside any \<open>try\<close>) and by \<open>scanDirectory\<close>;
  the tree is taken not to change during a run.
\<close>

definition maxFiles :: nat where
  "maxFiles = 10000"

definition analyzeProject ::
  "filesystem \<Rightarrow> string \<Rightarrow> int \<Rightarrow> int \<Rightarrow> learn_error + LearnResult" where
  "analyzeProject fs root startTime endTime =
     (case fs root of
        None \<Rightarrow> Inl (PathDoesNotExist root)
      | Some NotADirectory \<Rightarrow> Inl (PathIsNotADirectory root)
      | Some (DirectoryNode d) \<Rightarrow>
          (case d of
             Unreadable \<Rightarrow> Inl (ReaddirFailed root)
           | Readable topLevelEntries \<Rightarrow>
               (let topLevelFiles = map name (filter isFile topLevelEntries);
                    types = detectProjectTypes root topLevelFiles;
                    scanResult = \<lparr>files = 0, directories = 0, filesByType = [], agentFiles = []\<rparr>
                in case scanDirectory d maxFiles scanResult [] of
                     (trunc, scanResult') \<Rightarrow>
                       Inr \<lparr>rootPath = root,
                            totalFiles = files scanResult',
                            totalDirectories = directories scanResult',
                            projectTypes = types,
                            lr_filesByType = filesByType scanResult',
                            lr_agentFiles = agentFiles scanResult',
                            durationMs = endTime - startTime,
                            truncated = trunc\<rparr>)))"

section \<open>The context loader\<close>

text \<open>
  The module that loads context files (\<open>loadContextFile\<close>, \<open>loadContextFiles\<close>). It
  calls four functions of the platform, taken here as parameters: \<open>path.isAbsolute\<close>,
  \<open>path.resolve\<close>, \<open>path.extname\<close> and \<open>String.prototype.toLowerCase\<close>.
\<close>

record platform =
  isAbsolute :: "string \<Rightarrow> bool"
  resolve :: "string \<Rightarrow> string \<Rightarrow> string"
  extname :: "string \<Rightarrow> string"
  toLowerCase :: "string \<Rightarrow> string"

text \<open>
  What the file system holds at a path for which \<open>fs.existsSync\<close> is true: the \<open>size\<close>
  that \<open>fs.statSync\<close> reports and the text that \<open>fs.readFileSync(path, 'utf-8')\<close>
  returns, each \<open>None\<close> when the call throws.
\<close>

record stored =
  statSize :: "nat option"
  readText :: "string option"

type_synonym storage = "string \<rightharpoonup> stored"

text \<open>
  The error messages, by the template that builds them and the value put into it.
\<close>

datatype context_error =
    ContextFileNotFound string
  | InvalidFormat string
  | CannotAccess
  | ContextFileTooLarge nat
  | FailedToRead
  | LoadingTimeout

record ContextFileResult =
  path :: string
  success :: bool
  content :: "string option"
  sizeBytes :: "nat option"
  error :: "context_error option"

definition MAX_CONTEXT_FILE_SIZE :: nat where
  "MAX_CONTEXT_FILE_SIZE = 100 * 1024"

definition MAX_LOAD_TIME_MS :: int where
  "MAX_LOAD_TIME_MS = 1000"

definition validExtensions :: "string list" where
  "validExtensions = [''.md'', ''.markdown'', ''.txt'']"

definition validateContextFileFormat :: "platform \<Rightarrow> string \<Rightarrow> context_error option" where
  "validateContextFileFormat lib filePath =
     (let ext = toLowerCase lib (extname lib filePath)
      in if ext \<notin> set validExtensions then Some (InvalidFormat ext) else None)"

text \<open>
  \<open>resolvedPath\<close> is the constant of that name in \<open>loadContextFile\<close>; \<open>failed p e\<close> is
  the object each failing branch returns, with no \<open>content\<close> and no \<open>sizeBytes\<close>.
\<close>

definition resolvedPath :: "platform \<Rightarrow> string \<Rightarrow> string \<Rightarrow> string" where
  "resolvedPath lib filePath cwd =
     (if isAbsolute lib filePath then filePath else resolve lib cwd filePath)"

definition failed :: "string \<Rightarrow> context_error \<Rightarrow> ContextFileResult" where
  "failed p e = \<lparr>path = p, success = False, content = None, sizeBytes = None, error = Some e\<rparr>"

definition loadContextFile ::
  "platform \<Rightarrow> storage \<Rightarrow> string \<Rightarrow> string \<Rightarrow> ContextFileResult" where
  "loadContextFile lib fs filePath cwd =
     (let p = resolvedPath lib filePath cwd
      in case fs p of
           None \<Rightarrow> failed p (ContextFileNotFound p)
         | Some file \<Rightarrow>
             (case validateContextFileFormat lib p of
                Some formatError \<Rightarrow> failed p formatError
              | None \<Rightarrow>
                  (case statSize file of
                     None \<Rightarrow> failed p CannotAccess
                   | Some fileSize \<Rightarrow>
                       if fileSize > MAX_CONTEXT_FILE_SIZE
                       then failed p (ContextFileTooLarge fileSize)
                       else (case readText file of
                               Some text \<Rightarrow>
                                 \<lparr>path = p, success = True, content = Some text,
                                  sizeBytes = Some fileSize, error = None\<rparr>
                             | None \<Rightarrow> failed p FailedToRead))))"

text \<open>
  The local variables of \<open>loadContextFiles\<close> that its loop updates, and the update for
  one result: \<open>result.success && result.content\<close> holds for a loaded file whose text is
  not empty.
\<close>

record loading =
  results :: "ContextFileResult list"
  errors :: "context_error list"
  contents :: "string list"
  totalSize :: nat

definition collect :: "ContextFileResult \<Rightarrow> loading \<Rightarrow> loading" where
  "collect result st =
     (let st1 = st\<lparr>results := results st @ [result]\<rparr>
      in case content result of
           Some text \<Rightarrow>
             if success result \<and> text \<noteq> []
             then st1\<lparr>contents := contents st1 @ [text],
                      totalSize := totalSize st1 + (case sizeBytes result of Some n \<Rightarrow> n | None \<Rightarrow> 0)\<rparr>
             else (case error result of Some e \<Rightarrow> st1\<lparr>errors := errors st1 @ [e]\<rparr> | None \<Rightarrow> st1)
         | None \<Rightarrow>
             (case error result of Some e \<Rightarrow> st1\<lparr>errors := errors st1 @ [e]\<rparr> | None \<Rightarrow> st1))"

text \<open>
  The clock is read once before the loop, once in each iteration and once after the
  loop: \<open>clock k\<close> is what the \<open>k\<close>-th reading of \<open>Date.now()\<close> returns, and the loop
  carries the number of readings made so far.
\<close>

fun loadContextFiles_loop ::
  "platform \<Rightarrow> storage \<Rightarrow> (nat \<Rightarrow> int) \<Rightarrow> int \<Rightarrow> string \<Rightarrow> string list \<Rightarrow> nat \<Rightarrow> loading
     \<Rightarrow> nat \<times> loading" where
  "loadContextFiles_loop lib fs clock startTime cwd [] readings st = (readings, st)"
| "loadContextFiles_loop lib fs clock startTime cwd (filePath # rest) readings st =
     (let elapsed = clock readings - startTime
      in if elapsed > MAX_LOAD_TIME_MS
         then (readings + 1, st\<lparr>errors := errors st @ [LoadingTimeout]\<rparr>)
         else loadContextFiles_loop lib fs clock startTime cwd rest (readings + 1)
                (collect (loadContextFile lib fs filePath cwd) st))"

fun join :: "string \<Rightarrow> string list \<Rightarrow> string" where
  "join separator [] = []"
| "join separator [x] = x"
| "join separator (x # y # ys) = x @ separator @ join separator (y # ys)"

text \<open>
  \<open>ContextLoadResult\<close>; its fields \<open>success\<close>, \<open>files\<close> and \<open>errors\<close> are \<open>clr_success\<close>,
  \<open>clr_files\<close> and \<open>clr_errors\<close> here.
\<close>

record ContextLoadResult =
  clr_success :: bool
  clr_files :: "ContextFileResult list"
  combinedContent :: string
  totalSizeBytes :: nat
  loadTimeMs :: int
  clr_errors :: "context_error list"

definition loadContextFiles ::
  "platform \<Rightarrow> storage \<Rightarrow> (nat \<Rightarrow> int) \<Rightarrow> string list \<Rightarrow> string \<Rightarrow> ContextLoadResult" where
  "loadContextFiles lib fs clock filePaths cwd =
     (let startTime = clock 0
      in case loadContextFiles_loop lib fs clock startTime cwd filePaths 1
                \<lparr>results = [], errors = [], contents = [], totalSize = 0\<rparr> of
           (readings, st) \<Rightarrow>
             \<lparr>clr_success = (length (results st) > 0 \<and> list_all success (results st)),
              clr_files = results st,
              combinedContent =
                join [CHR 0x0A, CHR 0x0A, CHR ''-'', CHR ''-'', CHR ''-'', CHR 0x0A, CHR 0x0A]
                  (contents st),
              totalSizeBytes = totalSize st,
              loadTimeMs = clock readings - startTime,
              clr_errors = errors st\<rparr>)"

section \<open>Notions used to state the properties\<close>

text \<open>
  The files an unbounded walk visits, in the order it visits them, each as the relative
  path of its directory and its name: the files of the directory and, at the place of
  each sub-directory that is not ignored, the files below it. An unreadable directory
  and an ignored one give none.
\<close>

fun eligibleFiles :: "string \<Rightarrow> dir \<Rightarrow> (string \<times> string) list"
and eligibleFiles_entries :: "string \<Rightarrow> dirent list \<Rightarrow> (string \<times> string) list" where
  "eligibleFiles rel Unreadable = []"
| "eligibleFiles rel (Readable entries) = eligibleFiles_entries rel entries"
| "eligibleFiles_entries rel [] = []"
| "eligibleFiles_entries rel (File n # rest) = (rel, n) # eligibleFiles_entries rel rest"
| "eligibleFiles_entries rel (Directory n d # rest) =
     (if shouldIgnoreDir n then [] else eligibleFiles (path_join rel n) d)
     @ eligibleFiles_entries rel rest"
| "eligibleFiles_entries rel (Other n # rest) = eligibleFiles_entries rel rest"

text \<open>Counting one file, given as such a pair; a scan result without its directory count.\<close>

definition visit :: "string \<times> string \<Rightarrow> scan_result \<Rightarrow> scan_result" where
  "visit = (\<lambda>(rel, n). scanFile rel n)"

definition forget_directories :: "scan_result \<Rightarrow> scan_result" where
  "forget_directories r = r\<lparr>directories := 0\<rparr>"

subsection \<open>Trees that the walk cannot tell apart\<close>

text \<open>
  Three ways to change a tree, each applied at every depth: \<open>withoutIgnored\<close> removes
  every directory that \<open>shouldIgnoreDir\<close> rejects, with all it holds; \<open>hideIgnored\<close>
  keeps such a directory and throws its contents away; \<open>unreadableAsEmpty\<close> turns
  every directory that cannot be read into a readable one without entries.
\<close>

fun withoutIgnored :: "dir \<Rightarrow> dir"
and withoutIgnored_entries :: "dirent list \<Rightarrow> dirent list" where
  "withoutIgnored Unreadable = Unreadable"
| "withoutIgnored (Readable entries) = Readable (withoutIgnored_entries entries)"
| "withoutIgnored_entries [] = []"
| "withoutIgnored_entries (File n # rest) = File n # withoutIgnored_entries rest"
| "withoutIgnored_entries (Other n # rest) = Other n # withoutIgnored_entries rest"
| "withoutIgnored_entries (Directory n d # rest) =
     (if shouldIgnoreDir n then withoutIgnored_entries rest
      else Directory n (withoutIgnored d) # withoutIgnored_entries rest)"

fun hideIgnored :: "dir \<Rightarrow> dir"
and hideIgnored_entries :: "dirent list \<Rightarrow> dirent list" where
  "hideIgnored Unreadable = Unreadable"
| "hideIgnored (Readable entries) = Readable (hideIgnored_entries entries)"
| "hideIgnored_entries [] = []"
| "hideIgnored_entries (File n # rest) = File n # hideIgnored_entries rest"
| "hideIgnored_entries (Other n # rest) = Other n # hideIgnored_entries rest"
| "hideIgnored_entries (Directory n d # rest) =
     (if shouldIgnoreDir n then Directory n Unreadable # hideIgnored_entries rest
      else Directory n (hideIgnored d) # hideIgnored_entries rest)"

fun unreadableAsEmpty :: "dir \<Rightarrow> dir"
and unreadableAsEmpty_entries :: "dirent list \<Rightarrow> dirent list" where
  "unreadableAsEmpty Unreadable = Readable []"
| "unreadableAsEmpty (Readable entries) = Readable (unreadableAsEmpty_entries entries)"
| "unreadableAsEmpty_entries [] = []"
| "unreadableAsEmpty_entries (File n # rest) = File n # unreadableAsEmpty_entries rest"
| "unreadableAsEmpty_entries (Other n # rest) = Other n # unreadableAsEmpty_entries rest"
| "unreadableAsEmpty_entries (Directory n d # rest) =
     Directory n (unreadableAsEmpty d) # unreadableAsEmpty_entries rest"

subsection \<open>Parts of a result\<close>

text \<open>
  The four tallies of a \<open>LearnResult\<close>; the three values the partitioner is compared
  on between runs; the \<open>scanResult\<close> object that \<open>analyzeProject\<close> starts the walk with.
\<close>

definition tallies :: "LearnResult \<Rightarrow> nat \<times> nat \<times> (string \<times> nat) list \<times> string list" where
  "tallies res = (totalFiles res, totalDirectories res, lr_filesByType res, lr_agentFiles res)"

definition partition_outcome :: "LearnResult \<Rightarrow> nat \<times> nat \<times> bool" where
  "partition_outcome res = (totalFiles res, totalDirectories res, truncated res)"

definition emptyResult :: scan_result where
  "emptyResult = \<lparr>files = 0, directories = 0, filesByType = [], agentFiles = []\<rparr>"

subsection \<open>Marker files, typed files, indicators\<close>

text \<open>
  The paths the walk records for the marker files among the files it visits; the
  visited files that have a type; a suffix that is a dot followed by characters other
  than the dot.
\<close>

definition markerPaths :: "(string \<times> string) list \<Rightarrow> string list" where
  "markerPaths visited =
     map (\<lambda>(rel, n). path_join rel n) (filter (\<lambda>(rel, n). n = ''AGENTS.md'') visited)"

definition typedFiles :: "(string \<times> string) list \<Rightarrow> (string \<times> string) list" where
  "typedFiles visited = filter (\<lambda>(rel, n). detectFileType n \<noteq> None) visited"

definition dotted :: "string \<Rightarrow> bool" where
  "dotted s = (case s of [] \<Rightarrow> False | c # a \<Rightarrow> c = CHR ''.'' \<and> CHR ''.'' \<notin> set a)"

text \<open>
  What it is for an indicator file to be present at top level, in the words of the
  table: an indicator is a file name, or, with a \<open>*\<close>, a glob pattern (the source calls
  it so) in which \<open>*\<close> stands for any run of characters and every other character for
  itself. \<open>indicatorPresent\<close> holds when a top-level file has that name or matches that
  pattern.
\<close>

fun glob_match :: "string \<Rightarrow> string \<Rightarrow> bool" where
  "glob_match [] s = (s = [])"
| "glob_match (p # ps) [] = (p = CHR ''*'' \<and> glob_match ps [])"
| "glob_match (p # ps) (c # cs) =
     (if p = CHR ''*'' then glob_match ps (c # cs) \<or> glob_match (p # ps) cs
      else p = c \<and> glob_match ps cs)"

definition indicatorPresent :: "string list \<Rightarrow> string \<Rightarrow> bool" where
  "indicatorPresent fileNames indicator = list_ex (glob_match indicator) fileNames"

subsection \<open>Buckets\<close>

text \<open>
  The count that \<open>filesByType\<close> holds for a type, zero when the type has no key
  (\<open>filesByType[t] || 0\<close>), and the visited files that \<open>detectFileType\<close> gives a type.
\<close>

definition bucket :: "(string \<times> nat) list \<Rightarrow> string \<Rightarrow> nat" where
  "bucket counts t = (case map_of counts t of None \<Rightarrow> 0 | Some c \<Rightarrow> c)"

definition filesOfType :: "string \<Rightarrow> (string \<times> string) list \<Rightarrow> (string \<times> string) list" where
  "filesOfType t visited = filter (\<lambda>(rel, n). detectFileType n = Some t) visited"

section \<open>Example inputs\<close>

subsection \<open>Trees\<close>

text \<open>A directory of 10,005 plain files with three-letter names, all different.\<close>

definition plain_names :: "string list" where
  "plain_names = take 10005 (List.n_lists 3 ''abcdefghijklmnopqrstuv'')"

definition many_files :: "dirent list" where
  "many_files = map File plain_names"

text \<open>
  A project area of three directories (\<open>src\<close>, \<open>src/commands\<close>, \<open>docs\<close>) and ten
  files, and a \<open>node_modules\<close> directory holding 5,000 files.
\<close>

definition project_area :: "dirent list" where
  "project_area =
     [Directory ''src''
        (Readable [File ''index.ts'', File ''cli.ts'', File ''util.ts'', File ''types.ts'',
                   Directory ''commands'' (Readable [File ''learn.ts'', File ''index.ts''])]),
      Directory ''docs'' (Readable [File ''guide.md'']),
      File ''package.json'', File ''README.md'', File ''LICENSE'']"


definition node_modules_dir :: dir where
  "node_modules_dir = Readable (map File (take 5000 plain_names))"

text \<open>A tree with marker files at the root, three directories down, and in an ignored directory.\<close>

definition marked_tree :: "dirent list" where
  "marked_tree =
     [File ''AGENTS.md'',
      Directory ''src''
        (Readable [File ''index.ts'',
                   Directory ''commands''
                     (Readable [Directory ''learn'' (Readable [File ''AGENTS.md''])])]),
      Directory ''node_modules'' (Readable [File ''AGENTS.md''])]"

subsection \<open>A platform and a storage\<close>

text \<open>
  Stand-ins for the platform functions on POSIX. \<open>posix_extname\<close> is \<open>path.extname\<close>:
  the last segment of the path, trailing slashes apart, from its last dot on, and empty
  when the segment has no dot, begins with its only dot, or is \<open>..\<close>. The other three
  agree with the platform where they are used below: \<open>resolve\<close> on a working directory
  that is absolute and a relative path of plain segments, \<open>toLowerCase\<close> on text
  without upper-case letters. The storage is a working directory with a small context
  file, one of 200,000 bytes, and an image.
\<close>

definition posix_extname :: "string \<Rightarrow> string" where
  "posix_extname p =
     (let trimmed = rev (dropWhile (\<lambda>c. c = CHR ''/'') (rev p));
          segment = rev (takeWhile (\<lambda>c. c \<noteq> CHR ''/'') (rev trimmed));
          ext = CHR ''.'' # rev (takeWhile (\<lambda>c. c \<noteq> CHR ''.'') (rev segment))
      in if CHR ''.'' \<notin> set segment \<or> length ext = length segment \<or> segment = ''..''
         then [] else ext)"

definition example_platform :: platform where
  "example_platform =
     \<lparr>isAbsolute = (\<lambda>p. prefix ''/'' p),
      resolve = (\<lambda>cwd p. cwd @ ''/'' @ p),
      extname = posix_extname,
      toLowerCase = (\<lambda>s. s)\<rparr>"

definition example_storage :: storage where
  "example_storage =
     [''/work/notes.md'' \<mapsto> \<lparr>statSize = Some 5, readText = Some ''hello''\<rparr>,
      ''/work/big.md'' \<mapsto> \<lparr>statSize = Some 200000, readText = Some ''big''\<rparr>,
      ''/work/logo.png'' \<mapsto> \<lparr>statSize = Some 900, readText = Some ''png''\<rparr>]"

section \<open>The walk\<close>

subsection \<open>One step of the loop\<close>

lemma scanDirectory_capped: "m \<le> files r \<Longrightarrow> scanDirectory d m r rel = (True, r)"
  by simp

lemma scanEntries_capped: "m \<le> files r \<Longrightarrow> snd (scanEntries es m r rel) = r"
  by (cases es) simp_all

lemma scanDirectory_Readable:
  "files r < m \<Longrightarrow> scanDirectory (Readable es) m r rel = scanEntries es m r rel"
  by simp

lemma scanDirectory_Unreadable:
  "files r < m \<Longrightarrow> scanDirectory Unreadable m r rel = (False, r)"
  by simp

lemma scanEntries_File:
  "files r < m \<Longrightarrow>
   scanEntries (File n # rest) m r rel = scanEntries rest m (scanFile rel n r) rel"
  by simp

lemma scanEntries_Other:
  "files r < m \<Longrightarrow> scanEntries (Other n # rest) m r rel = scanEntries rest m r rel"
  by simp

lemma scanEntries_ignored:
  "files r < m \<Longrightarrow> shouldIgnoreDir n \<Longrightarrow>
   scanEntries (Directory n d # rest) m r rel = scanEntries rest m r rel"
  by simp

lemma scanEntries_Directory:
  "files r < m \<Longrightarrow> \<not> shouldIgnoreDir n \<Longrightarrow>
   scanDirectory d m (r\<lparr>directories := directories r + 1\<rparr>) (path_join rel n) = (t, r') \<Longrightarrow>
   scanEntries (Directory n d # rest) m r rel =
     (if t then (True, r') else scanEntries rest m r' rel)"
  by simp

lemma scan_truncated_ge:
  "fst (scanDirectory d m r rel) \<Longrightarrow> m \<le> files (snd (scanDirectory d m r rel))"
  "fst (scanEntries es m r rel) \<Longrightarrow> m \<le> files (snd (scanEntries es m r rel))"
proof (induction d m r rel and es m r rel rule: scanDirectory_scanEntries.induct)
  case (1 d m r rel)
  then show ?case by (cases d) (auto split: if_splits)
next
  case (2 m r rel)
  then show ?case by simp
next
  case (3 entry rest m r rel)
  show ?case
  proof (cases "m \<le> files r")
    case True
    then show ?thesis by simp
  next
    case False
    show ?thesis
    proof (cases entry)
      case (File n)
      with 3 False show ?thesis by simp
    next
      case (Other n)
      with 3 False show ?thesis by simp
    next
      case (Directory n d)
      show ?thesis
      proof (cases "shouldIgnoreDir n")
        case True
        with 3 False Directory show ?thesis by simp
      next
        case ign: False
        obtain t r' where sc: "scanDirectory d m (r\<lparr>directories := directories r + 1\<rparr>) (path_join rel n) = (t, r')"
          by (cases "scanDirectory d m (r\<lparr>directories := directories r + 1\<rparr>) (path_join rel n)")
        show ?thesis
        proof (cases t)
          case True
          with 3(2)[OF False Directory ign] sc False Directory ign show ?thesis by simp
        next
          case nt: False
          with 3(3)[OF False Directory ign sc[symmetric] nt] 3(6) sc False Directory ign show ?thesis by simp
        qed
      qed
    qed
  qed
qed

lemma files_scanFile: "files (scanFile rel n r) = files r + 1"
  by (simp add: scanFile_def Let_def split: option.split)

lemma forget_scanFile:
  "forget_directories (scanFile rel n r) = scanFile rel n (forget_directories r)"
  by (simp add: scanFile_def forget_directories_def Let_def split: option.split)

lemma forget_fold_visit:
  "forget_directories (fold visit xs r) = fold visit xs (forget_directories r)"
  by (induction xs arbitrary: r) (simp_all add: visit_def forget_scanFile split: prod.split)

lemma files_fold_visit: "files (fold visit xs r) = files r + length xs"
  by (induction xs arbitrary: r) (simp_all add: visit_def files_scanFile split: prod.split)

lemma forget_simps:
  "forget_directories (r\<lparr>directories := x\<rparr>) = forget_directories r"
  "files (forget_directories r) = files r"
  "filesByType (forget_directories r) = filesByType r"
  "agentFiles (forget_directories r) = agentFiles r"
  by (simp_all add: forget_directories_def)

lemma scan_visits:
  "forget_directories (snd (scanDirectory d m r rel)) =
     fold visit (take (m - files r) (eligibleFiles rel d)) (forget_directories r)"
  "forget_directories (snd (scanEntries es m r rel)) =
     fold visit (take (m - files r) (eligibleFiles_entries rel es)) (forget_directories r)"
proof (induction d m r rel and es m r rel rule: scanDirectory_scanEntries.induct)
  case (1 d m r rel)
  then show ?case by (cases d) auto
next
  case (2 m r rel)
  show ?case by simp
next
  case (3 entry rest m r rel)
  show ?case
  proof (cases "m \<le> files r")
    case True
    then show ?thesis by simp
  next
    case False
    then have lt: "files r < m" by simp
    then obtain k where k: "m - files r = Suc k" by (cases "m - files r") auto
    show ?thesis
    proof (cases entry)
      case (File n)
      have "m - files (scanFile rel n r) = k" using k by (simp add: files_scanFile)
      with 3(1)[OF False File] File lt k show ?thesis
        by (simp add: visit_def forget_scanFile)
    next
      case (Other n)
      with 3(5)[OF False Other] lt show ?thesis by simp
    next
      case (Directory n d)
      show ?thesis
      proof (cases "shouldIgnoreDir n")
        case True
        with 3(4)[OF False Directory] Directory lt show ?thesis by simp
      next
        case ign: False
        let ?r1 = "r\<lparr>directories := directories r + 1\<rparr>"
        let ?A = "eligibleFiles (path_join rel n) d"
        let ?B = "eligibleFiles_entries rel rest"
        obtain t r' where sc: "scanDirectory d m ?r1 (path_join rel n) = (t, r')"
          by (cases "scanDirectory d m ?r1 (path_join rel n)")
        have inner: "forget_directories r' = fold visit (take (m - files r) ?A) (forget_directories r)"
          using 3(2)[OF False Directory ign] sc by (simp add: forget_simps)
        have fr': "files r' = files r + min (m - files r) (length ?A)"
          using arg_cong[OF inner, of files] by (simp add: forget_simps files_fold_visit min.commute)
        have reach: "eligibleFiles_entries rel (entry # rest) = ?A @ ?B"
          using Directory ign by simp
        show ?thesis
        proof (cases t)
          case True
          have res: "scanEntries (entry # rest) m r rel = (True, r')"
            unfolding Directory by (simp only: scanEntries_Directory[OF lt ign sc] True if_True)
          have "m \<le> files r'" using scan_truncated_ge(1)[of d m ?r1 "path_join rel n"] sc True by simp
          with fr' lt have "m - files r \<le> length ?A" by simp
          then have "take (m - files r) (?A @ ?B) = take (m - files r) ?A" by simp
          then show ?thesis by (simp only: res snd_conv reach inner)
        next
          case nt: False
          have res: "scanEntries (entry # rest) m r rel = scanEntries rest m r' rel"
            unfolding Directory by (simp only: scanEntries_Directory[OF lt ign sc] nt if_False)
          have rest: "forget_directories (snd (scanEntries rest m r' rel)) =
                fold visit (take (m - files r') ?B) (forget_directories r')"
            using 3(3)[OF False Directory ign sc[symmetric] nt] .
          have "m - files r' = m - files r - length ?A" using fr' by auto
          with rest inner have "forget_directories (snd (scanEntries rest m r' rel)) =
                fold visit (take (m - files r) (?A @ ?B)) (forget_directories r)"
            by simp
          then show ?thesis by (simp only: res reach)
        qed
      qed
    qed
  qed
qed


lemma scan_files:
  "files (snd (scanDirectory d m r rel)) = files r + min (m - files r) (length (eligibleFiles rel d))"
  "files (snd (scanEntries es m r rel)) = files r + min (m - files r) (length (eligibleFiles_entries rel es))"
  using arg_cong[OF scan_visits(1)[of d m r rel], of files]
        arg_cong[OF scan_visits(2)[of es m r rel], of files]
  by (simp_all add: forget_simps files_fold_visit min.commute)

lemma scan_over:
  "files r \<le> m \<Longrightarrow> m < files r + length (eligibleFiles rel d) \<Longrightarrow> fst (scanDirectory d m r rel)"
  "files r \<le> m \<Longrightarrow> m < files r + length (eligibleFiles_entries rel es) \<Longrightarrow> fst (scanEntries es m r rel)"
proof (induction d m r rel and es m r rel rule: scanDirectory_scanEntries.induct)
  case (1 d m r rel)
  then show ?case by (cases d) auto
next
  case (2 m r rel)
  then show ?case by simp
next
  case (3 entry rest m r rel)
  show ?case
  proof (cases "m \<le> files r")
    case True
    then show ?thesis by simp
  next
    case False
    then have lt: "files r < m" by simp
    show ?thesis
    proof (cases entry)
      case (File n)
      with 3(1)[OF False File] 3(6,7) lt show ?thesis
        by (simp add: files_scanFile)
    next
      case (Other n)
      with 3(5)[OF False Other] 3(6,7) lt show ?thesis by simp
    next
      case (Directory n d)
      show ?thesis
      proof (cases "shouldIgnoreDir n")
        case True
        with 3(4)[OF False Directory] 3(6,7) Directory lt show ?thesis by simp
      next
        case ign: False
        let ?r1 = "r\<lparr>directories := directories r + 1\<rparr>"
        let ?A = "eligibleFiles (path_join rel n) d"
        let ?B = "eligibleFiles_entries rel rest"
        obtain t r' where sc: "scanDirectory d m ?r1 (path_join rel n) = (t, r')"
          by (cases "scanDirectory d m ?r1 (path_join rel n)")
        have fr': "files r' = files r + min (m - files r) (length ?A)"
          using scan_files(1)[of d m ?r1 "path_join rel n"] sc by simp
        have total: "m < files r + length ?A + length ?B"
          using 3(7) Directory ign by simp
        show ?thesis
        proof (cases t)
          case True
          then show ?thesis
            unfolding Directory by (simp only: scanEntries_Directory[OF lt ign sc] if_True fst_conv)
        next
          case nt: False
          have "\<not> m < files r + length ?A"
            using 3(2)[OF False Directory ign] sc nt lt by auto
          with fr' total have "files r' \<le> m" "m < files r' + length ?B" by auto
          then have "fst (scanEntries rest m r' rel)"
            using 3(3)[OF False Directory ign sc[symmetric] nt] by simp
          then show ?thesis
            unfolding Directory by (simp only: scanEntries_Directory[OF lt ign sc] nt if_False)
        qed
      qed
    qed
  qed
qed

lemma scan_under:
  "files r + length (eligibleFiles rel d) < m \<Longrightarrow> \<not> fst (scanDirectory d m r rel)"
  "files r + length (eligibleFiles_entries rel es) < m \<Longrightarrow> \<not> fst (scanEntries es m r rel)"
proof (induction d m r rel and es m r rel rule: scanDirectory_scanEntries.induct)
  case (1 d m r rel)
  then show ?case by (cases d) auto
next
  case (2 m r rel)
  then show ?case by simp
next
  case (3 entry rest m r rel)
  from 3(6) have lt: "files r < m" and False: "\<not> m \<le> files r" by auto
  show ?case
  proof (cases entry)
    case (File n)
    with 3(1)[OF False File] 3(6) lt show ?thesis
      by (simp add: files_scanFile)
  next
    case (Other n)
    with 3(5)[OF False Other] 3(6) lt show ?thesis by simp
  next
    case (Directory n d)
    show ?thesis
    proof (cases "shouldIgnoreDir n")
      case True
      with 3(4)[OF False Directory] 3(6) Directory lt show ?thesis by simp
    next
      case ign: False
      let ?r1 = "r\<lparr>directories := directories r + 1\<rparr>"
      let ?A = "eligibleFiles (path_join rel n) d"
      let ?B = "eligibleFiles_entries rel rest"
      obtain t r' where sc: "scanDirectory d m ?r1 (path_join rel n) = (t, r')"
        by (cases "scanDirectory d m ?r1 (path_join rel n)")
      have fr': "files r' = files r + min (m - files r) (length ?A)"
        using scan_files(1)[of d m ?r1 "path_join rel n"] sc by simp
      have total: "files r + length ?A + length ?B < m"
        using 3(6) Directory ign by simp
      then have nt: "\<not> t"
        using 3(2)[OF False Directory ign] sc by simp
      from fr' total have "files r' + length ?B < m" by auto
      then have "\<not> fst (scanEntries rest m r' rel)"
        using 3(3)[OF False Directory ign sc[symmetric] nt] by simp
      then show ?thesis
        unfolding Directory by (simp only: scanEntries_Directory[OF lt ign sc] nt if_False simp_thms)
    qed
  qed
qed

subsection \<open>The directory of 10,005 files\<close>

lemma eligibleFiles_entries_files:
  "eligibleFiles_entries rel (map File ns) = map (Pair rel) ns"
  by (induction ns) simp_all

lemma length_plain_names: "length plain_names = 10005"
proof -
  have "length ''abcdefghijklmnopqrstuv'' = 22"
    by simp
  then have "length (List.n_lists 3 ''abcdefghijklmnopqrstuv'') = 22 ^ 3"
    by (simp only: length_n_lists)
  then show ?thesis
    by (simp add: plain_names_def)
qed

lemma length_eligible_many_files:
  "length (eligibleFiles rel (Readable many_files)) = 10005"
  by (simp add: many_files_def eligibleFiles_entries_files length_plain_names)

subsection \<open>Changes of the tree that the walk does not see\<close>

lemma scan_hideIgnored:
  "scanDirectory (hideIgnored d) m r rel = scanDirectory d m r rel"
  "scanEntries (hideIgnored_entries es) m r rel = scanEntries es m r rel"
proof (induction d m r rel and es m r rel rule: scanDirectory_scanEntries.induct)
  case (1 d m r rel)
  then show ?case by (cases d) auto
next
  case (2 m r rel)
  show ?case by simp
next
  case (3 entry rest m r rel)
  then show ?case
    by (cases entry) (auto split: prod.splits)
qed

lemma scan_unreadableAsEmpty:
  "scanDirectory (unreadableAsEmpty d) m r rel = scanDirectory d m r rel"
  "scanEntries (unreadableAsEmpty_entries es) m r rel = scanEntries es m r rel"
proof (induction d m r rel and es m r rel rule: scanDirectory_scanEntries.induct)
  case (1 d m r rel)
  then show ?case by (cases d) auto
next
  case (2 m r rel)
  show ?case by simp
next
  case (3 entry rest m r rel)
  then show ?case
    by (cases entry) (auto split: prod.splits)
qed

lemma scan_withoutIgnored:
  "snd (scanDirectory (withoutIgnored d) m r rel) = snd (scanDirectory d m r rel)"
  "snd (scanEntries (withoutIgnored_entries es) m r rel) = snd (scanEntries es m r rel)"
proof (induction d m r rel and es m r rel rule: scanDirectory_scanEntries.induct)
  case (1 d m r rel)
  then show ?case by (cases d) auto
next
  case (2 m r rel)
  show ?case by simp
next
  case (3 entry rest m r rel)
  show ?case
  proof (cases "m \<le> files r")
    case True
    then show ?thesis by (simp only: scanEntries_capped)
  next
    case False
    then have lt: "files r < m" by simp
    show ?thesis
    proof (cases entry)
      case (File n)
      with 3(1)[OF False File] lt show ?thesis by simp
    next
      case (Other n)
      with 3(5)[OF False Other] lt show ?thesis by simp
    next
      case (Directory n d)
      show ?thesis
      proof (cases "shouldIgnoreDir n")
        case True
        with 3(4)[OF False Directory] Directory lt show ?thesis by simp
      next
        case ign: False
        let ?r1 = "r\<lparr>directories := directories r + 1\<rparr>"
        obtain t r' where sc: "scanDirectory d m ?r1 (path_join rel n) = (t, r')"
          by (cases "scanDirectory d m ?r1 (path_join rel n)")
        obtain t2 r2 where sc2: "scanDirectory (withoutIgnored d) m ?r1 (path_join rel n) = (t2, r2)"
          by (cases "scanDirectory (withoutIgnored d) m ?r1 (path_join rel n)")
        have same: "r2 = r'"
          using 3(2)[OF False Directory ign] sc sc2 by simp
        have big: "t \<or> t2 \<Longrightarrow> m \<le> files r'"
          using scan_truncated_ge(1)[of d m ?r1 "path_join rel n"]
                scan_truncated_ge(1)[of "withoutIgnored d" m ?r1 "path_join rel n"]
                sc sc2 same by auto
        have lhs: "scanEntries (withoutIgnored_entries (entry # rest)) m r rel =
                (if t2 then (True, r') else scanEntries (withoutIgnored_entries rest) m r' rel)"
          unfolding Directory using ign scanEntries_Directory[OF lt ign sc2] same
          by (simp del: scanEntries.simps scanDirectory.simps)
        have rhs: "scanEntries (entry # rest) m r rel =
                (if t then (True, r') else scanEntries rest m r' rel)"
          unfolding Directory by (rule scanEntries_Directory[OF lt ign sc])
        show ?thesis
        proof (cases "t \<or> t2")
          case True
          from big[OF True] have "snd (scanEntries (withoutIgnored_entries rest) m r' rel) = r'"
            "snd (scanEntries rest m r' rel) = r'"
            by (simp_all only: scanEntries_capped)
          then show ?thesis unfolding lhs rhs by simp
        next
          case False
          then have nt: "\<not> t" and nt2: "\<not> t2" by auto
          show ?thesis unfolding lhs rhs
            using 3(3)[OF \<open>\<not> m \<le> files r\<close> Directory ign sc[symmetric] nt] nt nt2 by simp
        qed
      qed
    qed
  qed
qed


subsection \<open>The example project\<close>

lemma project_area_types:
  "detectProjectTypes root [''package.json'', ''README.md'', ''LICENSE''] = [''node'']"
  by code_simp

lemma project_area_file_types:
  "detectFileType ''index.ts'' = Some ''typescript''"
  "detectFileType ''cli.ts'' = Some ''typescript''"
  "detectFileType ''util.ts'' = Some ''typescript''"
  "detectFileType ''types.ts'' = Some ''typescript''"
  "detectFileType ''learn.ts'' = Some ''typescript''"
  "detectFileType ''guide.md'' = Some ''markdown''"
  "detectFileType ''package.json'' = Some ''json''"
  "detectFileType ''README.md'' = Some ''markdown''"
  "detectFileType ''LICENSE'' = None"
  by (simp_all add: detectFileType_def FILE_PATTERNS_def pattern_test_def endsWith_def
        suffix_to_prefix)

lemma project_area_dirs:
  "shouldIgnoreDir ''node_modules''"
  "\<not> shouldIgnoreDir ''src''"
  "\<not> shouldIgnoreDir ''commands''"
  "\<not> shouldIgnoreDir ''docs''"
  "\<not> shouldIgnoreDir ''private''"
  by (simp_all add: shouldIgnoreDir_def IGNORED_DIRS_def startsWith_def)

lemma scan_project_area:
  "scanDirectory (Readable (Directory ''node_modules'' nm # project_area)) 10000
     \<lparr>files = 0, directories = 0, filesByType = [], agentFiles = []\<rparr> [] =
   (False, \<lparr>files = 10, directories = 3,
            filesByType = [(''typescript'', 6), (''markdown'', 2), (''json'', 1)],
            agentFiles = []\<rparr>)"
  by (simp add: project_area_def project_area_file_types project_area_dirs scanFile_def
        increment_def path_join_def)

lemma length_node_modules_dir:
  "length (eligibleFiles rel node_modules_dir) = 5000"
  by (simp add: node_modules_dir_def eligibleFiles_entries_files length_plain_names)

subsection \<open>analyzeProject on a readable root\<close>

lemma topLevelFiles_hideIgnored:
  "map name (filter isFile (hideIgnored_entries es)) = map name (filter isFile es)"
proof (induction es)
  case Nil
  show ?case by simp
next
  case (Cons e es)
  then show ?case by (cases e) simp_all
qed

lemma topLevelFiles_unreadableAsEmpty:
  "map name (filter isFile (unreadableAsEmpty_entries es)) = map name (filter isFile es)"
proof (induction es)
  case Nil
  show ?case by simp
next
  case (Cons e es)
  then show ?case by (cases e) simp_all
qed

lemma analyzeProject_Readable:
  "fs root = Some (DirectoryNode (Readable es)) \<Longrightarrow>
   analyzeProject fs root t0 t1 =
     Inr \<lparr>rootPath = root,
          totalFiles = files (snd (scanDirectory (Readable es) maxFiles emptyResult [])),
          totalDirectories = directories (snd (scanDirectory (Readable es) maxFiles emptyResult [])),
          projectTypes = detectProjectTypes root (map name (filter isFile es)),
          lr_filesByType = filesByType (snd (scanDirectory (Readable es) maxFiles emptyResult [])),
          lr_agentFiles = agentFiles (snd (scanDirectory (Readable es) maxFiles emptyResult [])),
          durationMs = t1 - t0,
          truncated = fst (scanDirectory (Readable es) maxFiles emptyResult [])\<rparr>"
  by (simp add: analyzeProject_def emptyResult_def Let_def split: prod.split del: scanDirectory.simps)

subsection \<open>What the visited files leave in the result\<close>

lemma agentFiles_scanFile:
  "agentFiles (scanFile rel n r) =
     agentFiles r @ (if n = ''AGENTS.md'' then [path_join rel n] else [])"
  by (simp add: scanFile_def Let_def split: option.split)

lemma agentFiles_fold_visit:
  "agentFiles (fold visit xs r) = agentFiles r @ markerPaths xs"
  by (induction xs arbitrary: r)
     (simp_all add: visit_def markerPaths_def agentFiles_scanFile split: prod.split)

lemma scan_agentFiles:
  "agentFiles (snd (scanDirectory d m r rel)) =
     agentFiles r @ markerPaths (take (m - files r) (eligibleFiles rel d))"
  using arg_cong[OF scan_visits(1)[of d m r rel], of agentFiles]
  by (simp add: forget_simps agentFiles_fold_visit)

lemma sum_increment:
  "sum_list (map snd (increment t counts)) = sum_list (map snd counts) + 1"
proof (induction counts)
  case Nil
  show ?case by (simp add: increment_def)
next
  case (Cons kv counts)
  then show ?case by (cases kv) (simp add: increment_def)
qed

lemma map_of_increment:
  "map_of (increment t counts) =
     (map_of counts)(t \<mapsto> (case map_of counts t of None \<Rightarrow> 0 | Some c \<Rightarrow> c) + 1)"
  by (simp add: increment_def update_conv')

lemma filesByType_scanFile:
  "filesByType (scanFile rel n r) =
     (case detectFileType n of None \<Rightarrow> filesByType r
      | Some t \<Rightarrow> increment t (filesByType r))"
  by (simp add: scanFile_def Let_def split: option.split)

lemma sum_filesByType_fold_visit:
  "sum_list (map snd (filesByType (fold visit xs r))) =
     sum_list (map snd (filesByType r)) + length (typedFiles xs)"
proof (induction xs arbitrary: r)
  case Nil
  show ?case by (simp add: typedFiles_def)
next
  case (Cons x xs)
  obtain rel n where x: "x = (rel, n)" by (cases x)
  have "sum_list (map snd (filesByType (scanFile rel n r))) =
          sum_list (map snd (filesByType r)) + (if detectFileType n \<noteq> None then 1 else 0)"
    by (simp add: filesByType_scanFile sum_increment split: option.split)
  with Cons[of "scanFile rel n r"] x show ?case
    by (simp add: visit_def typedFiles_def)
qed

lemma scan_sum_filesByType:
  "sum_list (map snd (filesByType (snd (scanDirectory d m r rel)))) =
     sum_list (map snd (filesByType r)) +
     length (typedFiles (take (m - files r) (eligibleFiles rel d)))"
  using arg_cong[OF scan_visits(1)[of d m r rel], of "\<lambda>r. sum_list (map snd (filesByType r))"]
  by (simp add: forget_simps sum_filesByType_fold_visit)

subsection \<open>The pattern table\<close>

lemma dotted_suffix_unique:
  assumes "dotted s" "dotted s'" "suffix s n" "suffix s' n"
  shows "s = s'"
proof -
  from assms(1,2) obtain a b where s: "s = CHR ''.'' # a" "CHR ''.'' \<notin> set a"
    and s': "s' = CHR ''.'' # b" "CHR ''.'' \<notin> set b"
    by (auto simp: dotted_def split: list.splits)
  have one: "u = v" if "suffix (CHR ''.'' # u) (CHR ''.'' # v)" "CHR ''.'' \<notin> set v" for u v
  proof -
    from that(1) obtain zs where zs: "CHR ''.'' # v = zs @ CHR ''.'' # u"
      by (auto simp: suffix_def)
    show ?thesis
    proof (cases zs)
      case Nil
      with zs show ?thesis by simp
    next
      case (Cons z zs')
      with zs have "v = zs' @ CHR ''.'' # u" by simp
      with that(2) show ?thesis by simp
    qed
  qed
  from suffix_same_cases[OF assms(3,4)] show ?thesis
    using one[of a b] one[of b a] s s' by auto
qed

lemma FILE_PATTERNS_dotted: "\<forall>s \<in> set (concat (map snd FILE_PATTERNS)). dotted s"
  by (simp add: FILE_PATTERNS_def dotted_def)

lemma FILE_PATTERNS_distinct: "distinct (concat (map snd FILE_PATTERNS))"
  by (simp add: FILE_PATTERNS_def)

lemma row_of_suffix_unique:
  "distinct (concat (map snd tbl)) \<Longrightarrow> (t, ss) \<in> set tbl \<Longrightarrow> (t', ss') \<in> set tbl \<Longrightarrow>
   s \<in> set ss \<Longrightarrow> s \<in> set ss' \<Longrightarrow> t = t'"
proof (induction tbl)
  case Nil
  then show ?case by simp
next
  case (Cons row tbl)
  have rest: "distinct (concat (map snd tbl))"
    and apart: "\<And>r x. r \<in> set tbl \<Longrightarrow> x \<in> set (snd row) \<Longrightarrow> x \<notin> set (snd r)"
    using Cons.prems(1) by auto
  consider "(t, ss) = row" "(t', ss') = row"
    | "(t, ss) = row" "(t', ss') \<in> set tbl"
    | "(t, ss) \<in> set tbl" "(t', ss') = row"
    | "(t, ss) \<in> set tbl" "(t', ss') \<in> set tbl"
    using Cons.prems(2,3) by auto
  then show ?case
  proof cases
    case 1
    then show ?thesis by (metis fst_conv)
  next
    case 2
    with apart[of "(t', ss')" s] Cons.prems(4,5) show ?thesis by (metis snd_conv)
  next
    case 3
    with apart[of "(t, ss)" s] Cons.prems(4,5) show ?thesis by (metis snd_conv)
  next
    case 4
    then show ?thesis using Cons.IH[OF rest] Cons.prems(4,5) by blast
  qed
qed

lemma detectFileType_loop_unique:
  "(t, sufs) \<in> set tbl \<Longrightarrow> pattern_test sufs n \<Longrightarrow>
   (\<And>t' sufs'. (t', sufs') \<in> set tbl \<Longrightarrow> pattern_test sufs' n \<Longrightarrow> t' = t) \<Longrightarrow>
   detectFileType_loop tbl n = Some t"
proof (induction tbl)
  case Nil
  then show ?case by simp
next
  case (Cons row tbl)
  obtain t0 s0 where row: "row = (t0, s0)" by (cases row)
  show ?case
  proof (cases "pattern_test s0 n")
    case True
    with Cons.prems(3)[of t0 s0] row show ?thesis by simp
  next
    case False
    with Cons.prems(1,2) row have inside: "(t, sufs) \<in> set tbl" by auto
    have "detectFileType_loop tbl n = Some t"
    proof (rule Cons.IH[OF inside Cons.prems(2)])
      fix t' sufs'
      assume "(t', sufs') \<in> set tbl" "pattern_test sufs' n"
      then show "t' = t" using Cons.prems(3)[of t' sufs'] by simp
    qed
    with False row show ?thesis by simp
  qed
qed

lemma detectFileType_loop_None:
  "detectFileType_loop tbl n = None \<longleftrightarrow> (\<forall>(t, sufs) \<in> set tbl. \<not> pattern_test sufs n)"
proof (induction tbl)
  case Nil
  show ?case by simp
next
  case (Cons row tbl)
  obtain t0 s0 where row: "row = (t0, s0)" by (cases row)
  show ?case unfolding row by (simp add: Cons.IH)
qed

lemma detectFileType_table:
  assumes "(t, sufs) \<in> set FILE_PATTERNS" "pattern_test sufs n"
  shows "detectFileType n = Some t"
  unfolding detectFileType_def
proof (rule detectFileType_loop_unique[OF assms])
  fix t' sufs'
  assume row': "(t', sufs') \<in> set FILE_PATTERNS" and "pattern_test sufs' n"
  then obtain s' where s': "s' \<in> set sufs'" "suffix s' n"
    by (auto simp: pattern_test_def endsWith_def list_ex_iff)
  from assms obtain s where s: "s \<in> set sufs" "suffix s n"
    by (auto simp: pattern_test_def endsWith_def list_ex_iff)
  have "dotted s" "dotted s'"
    using FILE_PATTERNS_dotted s(1) s'(1) assms(1) row' by force+
  then have "s = s'"
    using s(2) s'(2) by (rule dotted_suffix_unique)
  with row_of_suffix_unique[OF FILE_PATTERNS_distinct assms(1) row' s(1)] s'(1)
  show "t' = t" by simp
qed

subsection \<open>detectProjectTypes on a backup of a solution file\<close>

lemma detectProjectTypes_nonempty: "detectProjectTypes root fileNames \<noteq> []"
  by (simp add: detectProjectTypes_def Let_def)

lemma glob_examples:
  "glob_match ''*.sln'' ''app.sln''"
  "glob_match ''*.csproj'' ''tool.csproj''"
  "glob_match ''go.mod'' ''go.mod''"
  "\<not> glob_match ''*.sln'' ''my_sln.bak''"
  by simp_all

lemma no_indicator_file:
  "\<not> list_ex (indicatorPresent [''my_sln.bak'']) (concat (map snd PROJECT_INDICATORS))"
  by (simp add: indicatorPresent_def PROJECT_INDICATORS_def)

lemma backup_types: "detectProjectTypes root [''my_sln.bak''] = [''dotnet'']"
  by code_simp

lemma solution_types: "detectProjectTypes root [''app.sln''] = [''dotnet'']"
  by code_simp

lemma backup_file_type: "detectFileType ''my_sln.bak'' = None"
  by (simp add: detectFileType_def FILE_PATTERNS_def pattern_test_def endsWith_def
        suffix_to_prefix)

subsection \<open>Typed files and the file count\<close>

lemma named_patterns:
  "(''javascript'', [''.js'', ''.mjs'', ''.cjs'']) \<in> set FILE_PATTERNS"
  "(''typescript'', [''.ts'', ''.tsx'']) \<in> set FILE_PATTERNS"
  "(''python'', [''.py'']) \<in> set FILE_PATTERNS"
  by (simp_all add: FILE_PATTERNS_def)

lemma length_typedFiles: "length (typedFiles xs) \<le> length xs"
  by (simp add: typedFiles_def)

lemma scan_typed_bound:
  "sum_list (map snd (filesByType r)) \<le> files r \<Longrightarrow>
   sum_list (map snd (filesByType (snd (scanDirectory d m r rel)))) \<le>
     files (snd (scanDirectory d m r rel))"
proof -
  assume start: "sum_list (map snd (filesByType r)) \<le> files r"
  have "length (typedFiles (take (m - files r) (eligibleFiles rel d))) \<le>
          min (m - files r) (length (eligibleFiles rel d))"
    using length_typedFiles[of "take (m - files r) (eligibleFiles rel d)"] by simp
  with start show ?thesis
    unfolding scan_sum_filesByType scan_files(1) by linarith
qed

subsection \<open>The bucket of one type\<close>

lemma bucket_increment:
  "bucket (increment t' counts) t = bucket counts t + (if t = t' then 1 else 0)"
  by (simp add: bucket_def map_of_increment)

lemma bucket_scanFile:
  "bucket (filesByType (scanFile rel n r)) t =
     bucket (filesByType r) t + (if detectFileType n = Some t then 1 else 0)"
  by (simp add: filesByType_scanFile bucket_increment split: option.split)

lemma bucket_fold_visit:
  "bucket (filesByType (fold visit xs r)) t =
     bucket (filesByType r) t + length (filesOfType t xs)"
proof (induction xs arbitrary: r)
  case Nil
  show ?case by (simp add: filesOfType_def)
next
  case (Cons x xs)
  obtain rel n where x: "x = (rel, n)" by (cases x)
  from Cons[of "scanFile rel n r"] x show ?case
    by (simp add: visit_def filesOfType_def bucket_scanFile)
qed

lemma scan_bucket:
  "bucket (filesByType (snd (scanDirectory d m r rel))) t =
     bucket (filesByType r) t +
     length (filesOfType t (take (m - files r) (eligibleFiles rel d)))"
  using arg_cong[OF scan_visits(1)[of d m r rel], of "\<lambda>r. bucket (filesByType r) t"]
  by (simp add: forget_simps bucket_fold_visit del: scanDirectory.simps)

lemma eligibleFiles_project_area:
  "eligibleFiles [] (Readable project_area) =
     [(''src'', ''index.ts''), (''src'', ''cli.ts''), (''src'', ''util.ts''),
      (''src'', ''types.ts''), (''src/commands'', ''learn.ts''),
      (''src/commands'', ''index.ts''), (''docs'', ''guide.md''),
      ([], ''package.json''), ([], ''README.md''), ([], ''LICENSE'')]"
  by (simp add: project_area_def project_area_dirs path_join_def)

subsection \<open>The tree with marker files\<close>

lemma marked_tree_dirs:
  "\<not> shouldIgnoreDir ''learn''"
  by (simp add: shouldIgnoreDir_def IGNORED_DIRS_def startsWith_def)

lemma eligibleFiles_marked_tree:
  "eligibleFiles [] (Readable marked_tree) =
     [([], ''AGENTS.md''), (''src'', ''index.ts''), (''src/commands/learn'', ''AGENTS.md'')]"
  by (simp add: marked_tree_def project_area_dirs marked_tree_dirs path_join_def)

section \<open>The context loader: its loop\<close>

lemma results_collect: "results (collect result st) = results st @ [result]"
  by (simp add: collect_def Let_def split: option.split)

lemma results_loop:
  "\<exists>k \<le> length ps.
     results (snd (loadContextFiles_loop lib fs clock t0 cwd ps r st)) =
       results st @ map (\<lambda>p. loadContextFile lib fs p cwd) (take k ps)"
proof (induction ps arbitrary: r st)
  case Nil
  show ?case by simp
next
  case (Cons p ps)
  show ?case
  proof (cases "clock r - t0 > MAX_LOAD_TIME_MS")
    case True
    then have "results (snd (loadContextFiles_loop lib fs clock t0 cwd (p # ps) r st)) =
                 results st @ map (\<lambda>p. loadContextFile lib fs p cwd) (take 0 (p # ps))"
      by simp
    then show ?thesis by blast
  next
    case False
    from Cons[of "r + 1" "collect (loadContextFile lib fs p cwd) st"]
    obtain k where k: "k \<le> length ps"
      "results (snd (loadContextFiles_loop lib fs clock t0 cwd ps (r + 1)
                       (collect (loadContextFile lib fs p cwd) st))) =
         results (collect (loadContextFile lib fs p cwd) st) @
           map (\<lambda>p. loadContextFile lib fs p cwd) (take k ps)"
      by blast
    with False have "results (snd (loadContextFiles_loop lib fs clock t0 cwd (p # ps) r st)) =
                 results st @ map (\<lambda>p. loadContextFile lib fs p cwd) (take (Suc k) (p # ps))"
      by (simp add: results_collect)
    moreover have "Suc k \<le> length (p # ps)" using k(1) by simp
    ultimately show ?thesis by blast
  qed
qed

lemma results_loop_in_time:
  "(\<forall>i < length ps. clock (r + i) - t0 \<le> MAX_LOAD_TIME_MS) \<Longrightarrow>
   results (snd (loadContextFiles_loop lib fs clock t0 cwd ps r st)) =
     results st @ map (\<lambda>p. loadContextFile lib fs p cwd) ps"
proof (induction ps arbitrary: r st)
  case Nil
  show ?case by simp
next
  case (Cons p ps)
  from Cons.prems have now: "\<not> clock r - t0 > MAX_LOAD_TIME_MS"
    by fastforce
  have later: "\<forall>i < length ps. clock (r + 1 + i) - t0 \<le> MAX_LOAD_TIME_MS"
    using Cons.prems by fastforce
  from Cons.IH[OF later] now show ?case
    by (simp add: results_collect)
qed

lemma loadContextFiles_fields:
  "clr_files (loadContextFiles lib fs clock filePaths cwd) =
     results (snd (loadContextFiles_loop lib fs clock (clock 0) cwd filePaths 1
                     \<lparr>results = [], errors = [], contents = [], totalSize = 0\<rparr>))"
  "clr_errors (loadContextFiles lib fs clock filePaths cwd) =
     errors (snd (loadContextFiles_loop lib fs clock (clock 0) cwd filePaths 1
                     \<lparr>results = [], errors = [], contents = [], totalSize = 0\<rparr>))"
  "clr_success (loadContextFiles lib fs clock filePaths cwd) =
     (clr_files (loadContextFiles lib fs clock filePaths cwd) \<noteq> [] \<and>
      list_all success (clr_files (loadContextFiles lib fs clock filePaths cwd)))"
  by (simp_all add: loadContextFiles_def Let_def split: prod.split)

subsection \<open>The example files\<close>

lemma posix_extname_examples:
  "posix_extname ''/work/notes.md'' = ''.md''"
  "posix_extname ''/work/big.md'' = ''.md''"
  "posix_extname ''/work/missing.md'' = ''.md''"
  "posix_extname ''/work/logo.png'' = ''.png''"
  "posix_extname ''/work/.md'' = []"
  "posix_extname ''/a.b/notes'' = []"
  "posix_extname ''/work/..'' = []"
  "posix_extname ''/work/x.tar.gz/'' = ''.gz''"
  by (simp_all add: posix_extname_def)

lemma example_loads:
  "loadContextFile example_platform example_storage ''notes.md'' ''/work'' =
     \<lparr>path = ''/work/notes.md'', success = True, content = Some ''hello'',
      sizeBytes = Some 5, error = None\<rparr>"
  "loadContextFile example_platform example_storage ''big.md'' ''/work'' =
     failed ''/work/big.md'' (ContextFileTooLarge 200000)"
  "loadContextFile example_platform example_storage ''/work/logo.png'' ''/work'' =
     failed ''/work/logo.png'' (InvalidFormat ''.png'')"
  "loadContextFile example_platform example_storage ''missing.md'' ''/work'' =
     failed ''/work/missing.md'' (ContextFileNotFound ''/work/missing.md'')"
  by (simp_all add: loadContextFile_def resolvedPath_def example_platform_def
        example_storage_def validateContextFileFormat_def validExtensions_def
        MAX_CONTEXT_FILE_SIZE_def Let_def posix_extname_examples)

section \<open>The claims\<close>

declare scanDirectory.simps [simp del]

text \<open>
  C1. For every directory tree, the walk counts at most the cap many files: a walk that
  starts below the cap ends with \<open>files\<close> at most the cap, and when the tree holds more
  eligible files than the cap leaves room for, the walk returns \<open>truncated = true\<close> with
  exactly the cap many files counted. For \<open>analyzeProject\<close>, whose cap is 10,000, on
  every readable root directory: it returns a result (it does not throw), \<open>totalFiles\<close>
  is the number of eligible files or 10,000, whichever is smaller, and with more than
  10,000 eligible files \<open>truncated\<close> is true and \<open>totalFiles\<close> is 10,000.
\<close>

theorem file_cap_truncates:
  "(files result \<le> cap \<longrightarrow>
      files (snd (scanDirectory d cap result rel)) \<le> cap \<and>
      (cap < files result + length (eligibleFiles rel d) \<longrightarrow>
         fst (scanDirectory d cap result rel) \<and>
         files (snd (scanDirectory d cap result rel)) = cap)) \<and>
   (fs root = Some (DirectoryNode (Readable entries)) \<longrightarrow>
      (\<exists>res. analyzeProject fs root t0 t1 = Inr res \<and>
         totalFiles res = min maxFiles (length (eligibleFiles [] (Readable entries))) \<and>
         totalFiles res \<le> maxFiles \<and>
         (maxFiles < length (eligibleFiles [] (Readable entries)) \<longrightarrow>
            truncated res \<and> totalFiles res = maxFiles)))"
proof (intro conjI impI)
  assume "files result \<le> cap"
  then show "files (snd (scanDirectory d cap result rel)) \<le> cap"
    by (simp add: scan_files(1))
next
  assume "files result \<le> cap" "cap < files result + length (eligibleFiles rel d)"
  then show "fst (scanDirectory d cap result rel)"
    by (rule scan_over(1))
next
  assume "files result \<le> cap" "cap < files result + length (eligibleFiles rel d)"
  then show "files (snd (scanDirectory d cap result rel)) = cap"
    by (simp add: scan_files(1))
next
  assume root: "fs root = Some (DirectoryNode (Readable entries))"
  let ?scan = "scanDirectory (Readable entries) maxFiles emptyResult []"
  have count: "files (snd ?scan) = min maxFiles (length (eligibleFiles [] (Readable entries)))"
    by (simp add: scan_files(1) emptyResult_def)
  have flag: "maxFiles < length (eligibleFiles [] (Readable entries)) \<longrightarrow> fst ?scan"
    using scan_over(1)[of emptyResult maxFiles "[]" "Readable entries"]
    by (simp add: emptyResult_def)
  from count flag show "\<exists>res. analyzeProject fs root t0 t1 = Inr res \<and>
         totalFiles res = min maxFiles (length (eligibleFiles [] (Readable entries))) \<and>
         totalFiles res \<le> maxFiles \<and>
         (maxFiles < length (eligibleFiles [] (Readable entries)) \<longrightarrow>
            truncated res \<and> totalFiles res = maxFiles)"
    using root by (simp add: analyzeProject_Readable)
qed

theorem file_cap_truncates_witness:
  "\<exists>res. analyzeProject [''/project'' \<mapsto> DirectoryNode (Readable many_files)] ''/project'' 0 1 = Inr res
     \<and> totalFiles res = 10000 \<and> truncated res"
proof -
  let ?fs = "[''/project'' \<mapsto> DirectoryNode (Readable many_files)]"
  have root: "?fs ''/project'' = Some (DirectoryNode (Readable many_files))"
    by simp
  from file_cap_truncates[of emptyResult 0 Unreadable "[]" ?fs "''/project''" many_files 0 1] root
  obtain res where res: "analyzeProject ?fs ''/project'' 0 1 = Inr res"
    and over: "maxFiles < length (eligibleFiles [] (Readable many_files)) \<longrightarrow>
                 truncated res \<and> totalFiles res = maxFiles"
    by blast
  from over have "truncated res \<and> totalFiles res = 10000"
    unfolding length_eligible_many_files maxFiles_def by simp
  with res show ?thesis
    by blast
qed

text \<open>
  C2. A directory whose name is in the ignore set or begins with a dot (those are the
  directories that \<open>shouldIgnoreDir\<close> rejects) is never descended into and contributes
  nothing to \<open>totalFiles\<close>, \<open>totalDirectories\<close>, \<open>filesByType\<close> or \<open>agentFiles\<close>. For
  every tree: the whole result of \<open>analyzeProject\<close> stays the same when the contents of
  every ignored directory, at any depth, are thrown away (so the walk never looks inside
  one), and the four tallies stay the same when the ignored directories are removed
  altogether. In particular a root that holds an
  ignored \<open>node_modules\<close>, whatever is in it, beside a project area of 3 directories and
  10 files gives 3 directories, 10 files and \<open>truncated = false\<close>.
\<close>

theorem ignored_directories_excluded:
  "shouldIgnoreDir dirName = (dirName \<in> set IGNORED_DIRS \<or> startsWith dirName ''.'') \<and>
   analyzeProject (fs(root \<mapsto> DirectoryNode (hideIgnored d))) root t0 t1 =
     analyzeProject (fs(root \<mapsto> DirectoryNode d)) root t0 t1 \<and>
   map_sum id tallies (analyzeProject (fs(root \<mapsto> DirectoryNode (withoutIgnored d))) root t0 t1) =
     map_sum id tallies (analyzeProject (fs(root \<mapsto> DirectoryNode d)) root t0 t1) \<and>
   analyzeProject [root \<mapsto> DirectoryNode (Readable (Directory ''node_modules'' nm # project_area))]
       root t0 t1 =
     Inr \<lparr>rootPath = root, totalFiles = 10, totalDirectories = 3, projectTypes = [''node''],
          lr_filesByType = [(''typescript'', 6), (''markdown'', 2), (''json'', 1)],
          lr_agentFiles = [], durationMs = t1 - t0, truncated = False\<rparr>"
proof (intro conjI)
  show "shouldIgnoreDir dirName = (dirName \<in> set IGNORED_DIRS \<or> startsWith dirName ''.'')"
    by (rule shouldIgnoreDir_def)
next
  show "analyzeProject (fs(root \<mapsto> DirectoryNode (hideIgnored d))) root t0 t1 =
          analyzeProject (fs(root \<mapsto> DirectoryNode d)) root t0 t1"
  proof (cases d)
    case Unreadable
    then show ?thesis by (simp add: analyzeProject_def)
  next
    case (Readable es)
    have "scanDirectory (Readable (hideIgnored_entries es)) maxFiles emptyResult [] =
          scanDirectory (Readable es) maxFiles emptyResult []"
      using scan_hideIgnored(1)[of "Readable es"] by simp
    then show ?thesis
      unfolding Readable by (simp add: analyzeProject_Readable topLevelFiles_hideIgnored)
  qed
next
  show "map_sum id tallies (analyzeProject (fs(root \<mapsto> DirectoryNode (withoutIgnored d))) root t0 t1) =
          map_sum id tallies (analyzeProject (fs(root \<mapsto> DirectoryNode d)) root t0 t1)"
  proof (cases d)
    case Unreadable
    then show ?thesis by (simp add: analyzeProject_def)
  next
    case (Readable es)
    have "snd (scanDirectory (Readable (withoutIgnored_entries es)) maxFiles emptyResult []) =
          snd (scanDirectory (Readable es) maxFiles emptyResult [])"
      using scan_withoutIgnored(1)[of "Readable es"] by simp
    then show ?thesis
      unfolding Readable
      by (simp add: analyzeProject_Readable tallies_def)
  qed
next
  show "analyzeProject [root \<mapsto> DirectoryNode (Readable (Directory ''node_modules'' nm # project_area))]
       root t0 t1 =
     Inr \<lparr>rootPath = root, totalFiles = 10, totalDirectories = 3, projectTypes = [''node''],
          lr_filesByType = [(''typescript'', 6), (''markdown'', 2), (''json'', 1)],
          lr_agentFiles = [], durationMs = t1 - t0, truncated = False\<rparr>"
  proof -
    have "map name (filter isFile (Directory ''node_modules'' nm # project_area)) =
            [''package.json'', ''README.md'', ''LICENSE'']"
      by (simp add: project_area_def)
    then show ?thesis
      using scan_project_area[of nm]
      by (simp add: analyzeProject_Readable maxFiles_def emptyResult_def project_area_types)
  qed
qed

theorem ignored_directories_excluded_witness:
  "analyzeProject
     [''/project'' \<mapsto> DirectoryNode (Readable (Directory ''node_modules'' node_modules_dir # project_area))]
     ''/project'' 0 1 =
   Inr \<lparr>rootPath = ''/project'', totalFiles = 10, totalDirectories = 3, projectTypes = [''node''],
        lr_filesByType = [(''typescript'', 6), (''markdown'', 2), (''json'', 1)],
        lr_agentFiles = [], durationMs = 1, truncated = False\<rparr> \<and>
   shouldIgnoreDir ''node_modules'' \<and>
   length (eligibleFiles ''node_modules'' node_modules_dir) = 5000"
  using ignored_directories_excluded[of "''node_modules''" Map.empty "''/project''" Unreadable 0 1
          node_modules_dir]
  by (simp add: IGNORED_DIRS_def length_node_modules_dir)

text \<open>
  C3 (as amended). When a directory below the root that is not ignored cannot be read,
  the failure is swallowed: the directory itself has already been counted in
  \<open>totalDirectories\<close>, nothing inside it is counted, the walk goes on with the entries
  that follow, and the analysis returns a result that shows no trace of the failure: the
  very result it returns when each such directory is readable and empty.
\<close>

theorem unreadable_directory_skipped:
  "scanDirectory (unreadableAsEmpty d) cap result rel = scanDirectory d cap result rel \<and>
   (\<not> shouldIgnoreDir n \<and> files result < cap \<longrightarrow>
      scanEntries (Directory n Unreadable # rest) cap result rel =
        scanEntries rest cap (result\<lparr>directories := directories result + 1\<rparr>) rel) \<and>
   analyzeProject (fs(root \<mapsto> DirectoryNode (Readable (unreadableAsEmpty_entries es)))) root t0 t1 =
     analyzeProject (fs(root \<mapsto> DirectoryNode (Readable es))) root t0 t1 \<and>
   (\<exists>res. analyzeProject (fs(root \<mapsto> DirectoryNode (Readable es))) root t0 t1 = Inr res)"
proof (intro conjI)
  show "scanDirectory (unreadableAsEmpty d) cap result rel = scanDirectory d cap result rel"
    by (rule scan_unreadableAsEmpty(1))
next
  show "\<not> shouldIgnoreDir n \<and> files result < cap \<longrightarrow>
      scanEntries (Directory n Unreadable # rest) cap result rel =
        scanEntries rest cap (result\<lparr>directories := directories result + 1\<rparr>) rel"
    by (simp add: scanDirectory.simps)
next
  have "scanDirectory (Readable (unreadableAsEmpty_entries es)) maxFiles emptyResult [] =
        scanDirectory (Readable es) maxFiles emptyResult []"
    using scan_unreadableAsEmpty(1)[of "Readable es"] by simp
  then show "analyzeProject (fs(root \<mapsto> DirectoryNode (Readable (unreadableAsEmpty_entries es)))) root t0 t1 =
     analyzeProject (fs(root \<mapsto> DirectoryNode (Readable es))) root t0 t1"
    by (simp add: analyzeProject_Readable topLevelFiles_unreadableAsEmpty)
next
  show "\<exists>res. analyzeProject (fs(root \<mapsto> DirectoryNode (Readable es))) root t0 t1 = Inr res"
    by (simp add: analyzeProject_Readable)
qed

theorem unreadable_directory_skipped_witness:
  "\<not> shouldIgnoreDir ''private'' \<and> files emptyResult < 10 \<and>
   scanEntries [Directory ''private'' Unreadable, File ''LICENSE''] 10 emptyResult [] =
     (False, \<lparr>files = 1, directories = 1, filesByType = [], agentFiles = []\<rparr>)"
  using unreadable_directory_skipped[of Unreadable 10 emptyResult "[]" "''private''"
          "[File ''LICENSE'']" Map.empty "[]" "[]" 0 0]
  by (simp add: project_area_dirs project_area_file_types emptyResult_def scanFile_def)

text \<open>
  Against C3 as stated (the branch is not counted, and no read failure aborts the
  analysis): a root whose only entry is an unreadable directory has one directory
  counted, where the empty root has none; and an unreadable root makes
  \<open>analyzeProject\<close> throw.
\<close>

theorem unreadable_directory_counted:
  "analyzeProject [''/project'' \<mapsto> DirectoryNode (Readable [Directory ''private'' Unreadable])]
       ''/project'' 0 1 =
     Inr \<lparr>rootPath = ''/project'', totalFiles = 0, totalDirectories = 1,
          projectTypes = [''unknown''], lr_filesByType = [], lr_agentFiles = [],
          durationMs = 1, truncated = False\<rparr> \<and>
   analyzeProject [''/project'' \<mapsto> DirectoryNode (Readable [])] ''/project'' 0 1 =
     Inr \<lparr>rootPath = ''/project'', totalFiles = 0, totalDirectories = 0,
          projectTypes = [''unknown''], lr_filesByType = [], lr_agentFiles = [],
          durationMs = 1, truncated = False\<rparr> \<and>
   analyzeProject [''/project'' \<mapsto> DirectoryNode Unreadable] ''/project'' 0 1 =
     Inl (ReaddirFailed ''/project'')"
  by (simp add: analyzeProject_Readable maxFiles_def emptyResult_def project_area_dirs
        scanDirectory.simps detectProjectTypes_def PROJECT_INDICATORS_def)
     (simp add: analyzeProject_def)

text \<open>
  C4 (as amended). When the root path does not exist or is not a directory,
  \<open>analyzeProject\<close> throws an error that names the path, whatever the rest of the file
  system holds. When the root is a directory that cannot be read it throws as well.
  For every root directory that can be read it returns a result.
\<close>

theorem root_must_be_readable_directory:
  "(fs root = None \<longrightarrow> analyzeProject fs root t0 t1 = Inl (PathDoesNotExist root)) \<and>
   (fs root = Some NotADirectory \<longrightarrow>
      analyzeProject fs root t0 t1 = Inl (PathIsNotADirectory root)) \<and>
   (fs root = Some (DirectoryNode Unreadable) \<longrightarrow>
      analyzeProject fs root t0 t1 = Inl (ReaddirFailed root)) \<and>
   (fs root = Some (DirectoryNode (Readable es)) \<longrightarrow>
      (\<exists>res. analyzeProject fs root t0 t1 = Inr res \<and> rootPath res = root))"
  by (simp add: analyzeProject_Readable) (simp add: analyzeProject_def)

theorem root_must_be_readable_directory_witness:
  "analyzeProject Map.empty ''/missing'' 0 1 = Inl (PathDoesNotExist ''/missing'') \<and>
   analyzeProject [''/notes.txt'' \<mapsto> NotADirectory] ''/notes.txt'' 0 1 =
     Inl (PathIsNotADirectory ''/notes.txt'') \<and>
   analyzeProject [''/locked'' \<mapsto> DirectoryNode Unreadable] ''/locked'' 0 1 =
     Inl (ReaddirFailed ''/locked'') \<and>
   (\<exists>res. analyzeProject [''/project'' \<mapsto> DirectoryNode (Readable project_area)] ''/project'' 0 1 =
      Inr res \<and> rootPath res = ''/project'')"
  using root_must_be_readable_directory[of Map.empty "''/missing''" 0 1 "[]"]
        root_must_be_readable_directory[of "[''/notes.txt'' \<mapsto> NotADirectory]" "''/notes.txt''" 0 1 "[]"]
        root_must_be_readable_directory[of "[''/locked'' \<mapsto> DirectoryNode Unreadable]" "''/locked''" 0 1 "[]"]
        root_must_be_readable_directory[of "[''/project'' \<mapsto> DirectoryNode (Readable project_area)]"
          "''/project''" 0 1 project_area]
  by simp

text \<open>
  Against C4 as stated (every root that exists and is a directory gives a result): a
  root directory that cannot be read.
\<close>

theorem unreadable_root_throws:
  "analyzeProject [''/locked'' \<mapsto> DirectoryNode Unreadable] ''/locked'' 0 1 =
     Inl (ReaddirFailed ''/locked'')"
  by (simp add: analyzeProject_def)

text \<open>
  C5. A file the walk visits is classified by the pattern table: a name that matches
  the pattern of a type has that type, whichever place the pattern has in the table
  (\<open>.ts\<close>, \<open>.tsx\<close>: typescript; \<open>.py\<close>: python; \<open>.js\<close>, \<open>.mjs\<close>, \<open>.cjs\<close>: javascript),
  and counting the file adds one to \<open>files\<close> and one to the bucket of that type and
  leaves the other buckets alone; a name that matches no pattern adds one to \<open>files\<close>
  and leaves \<open>filesByType\<close> as it is. The walk counts in this way each file entry it
  meets below the cap: apart from the directory count, its result is the result of
  counting, one after the other, the eligible files up to the room the cap leaves. So
  \<open>files\<close> grows by the number of files visited, the bucket of each type by the number
  of visited files of that type, and the sum of the buckets by the number of visited
  files that have a type. Hence the walk keeps the sum of the buckets at most \<open>files\<close>,
  and in every result of \<open>analyzeProject\<close> each bucket of \<open>filesByType\<close> is the number
  of visited files of its type and the buckets sum to at most \<open>totalFiles\<close>.
\<close>

theorem file_types_counted:
  "files (scanFile rel n r) = files r + 1 \<and>
   (\<forall>(t, sufs) \<in> set FILE_PATTERNS. pattern_test sufs n \<longrightarrow>
      detectFileType n = Some t \<and>
      map_of (filesByType (scanFile rel n r)) =
        (map_of (filesByType r))
          (t \<mapsto> (case map_of (filesByType r) t of None \<Rightarrow> 0 | Some c \<Rightarrow> c) + 1)) \<and>
   ((\<forall>(t, sufs) \<in> set FILE_PATTERNS. \<not> pattern_test sufs n) \<longrightarrow>
      detectFileType n = None \<and> filesByType (scanFile rel n r) = filesByType r) \<and>
   (endsWith n ''.ts'' \<or> endsWith n ''.tsx'' \<longrightarrow> detectFileType n = Some ''typescript'') \<and>
   (endsWith n ''.py'' \<longrightarrow> detectFileType n = Some ''python'') \<and>
   (endsWith n ''.js'' \<or> endsWith n ''.mjs'' \<or> endsWith n ''.cjs'' \<longrightarrow>
      detectFileType n = Some ''javascript'') \<and>
   (files result < cap \<longrightarrow>
      scanEntries (File n # rest) cap result rel' =
        scanEntries rest cap (scanFile rel' n result) rel') \<and>
   forget_directories (snd (scanDirectory d cap result rel')) =
     fold visit (take (cap - files result) (eligibleFiles rel' d)) (forget_directories result) \<and>
   files (snd (scanDirectory d cap result rel')) =
     files result + length (take (cap - files result) (eligibleFiles rel' d)) \<and>
   bucket (filesByType (snd (scanDirectory d cap result rel'))) ty =
     bucket (filesByType result) ty +
     length (filesOfType ty (take (cap - files result) (eligibleFiles rel' d))) \<and>
   sum_list (map snd (filesByType (snd (scanDirectory d cap result rel')))) =
     sum_list (map snd (filesByType result)) +
     length (typedFiles (take (cap - files result) (eligibleFiles rel' d))) \<and>
   (sum_list (map snd (filesByType result)) \<le> files result \<longrightarrow>
      sum_list (map snd (filesByType (snd (scanDirectory d cap result rel')))) \<le>
        files (snd (scanDirectory d cap result rel'))) \<and>
   (fs root = Some (DirectoryNode (Readable es)) \<longrightarrow>
      (\<exists>res. analyzeProject fs root t0 t1 = Inr res \<and>
         totalFiles res = length (take maxFiles (eligibleFiles [] (Readable es))) \<and>
         (\<forall>t. bucket (lr_filesByType res) t =
                length (filesOfType t (take maxFiles (eligibleFiles [] (Readable es))))) \<and>
         sum_list (map snd (lr_filesByType res)) =
           length (typedFiles (take maxFiles (eligibleFiles [] (Readable es)))) \<and>
         sum_list (map snd (lr_filesByType res)) \<le> totalFiles res))"
proof (intro conjI)
  show "files (scanFile rel n r) = files r + 1"
    by (rule files_scanFile)
next
  show "\<forall>(t, sufs) \<in> set FILE_PATTERNS. pattern_test sufs n \<longrightarrow>
      detectFileType n = Some t \<and>
      map_of (filesByType (scanFile rel n r)) =
        (map_of (filesByType r))
          (t \<mapsto> (case map_of (filesByType r) t of None \<Rightarrow> 0 | Some c \<Rightarrow> c) + 1)"
  proof (intro ballI, clarify)
    fix t sufs
    assume "(t, sufs) \<in> set FILE_PATTERNS" "pattern_test sufs n"
    then have "detectFileType n = Some t"
      by (rule detectFileType_table)
    then show "detectFileType n = Some t \<and>
      map_of (filesByType (scanFile rel n r)) =
        (map_of (filesByType r))
          (t \<mapsto> (case map_of (filesByType r) t of None \<Rightarrow> 0 | Some c \<Rightarrow> c) + 1)"
      by (simp add: filesByType_scanFile map_of_increment)
  qed
next
  show "(\<forall>(t, sufs) \<in> set FILE_PATTERNS. \<not> pattern_test sufs n) \<longrightarrow>
      detectFileType n = None \<and> filesByType (scanFile rel n r) = filesByType r"
  proof
    assume "\<forall>(t, sufs) \<in> set FILE_PATTERNS. \<not> pattern_test sufs n"
    then have "detectFileType n = None"
      by (simp add: detectFileType_def detectFileType_loop_None)
    then show "detectFileType n = None \<and> filesByType (scanFile rel n r) = filesByType r"
      by (simp add: filesByType_scanFile)
  qed
next
  show "endsWith n ''.ts'' \<or> endsWith n ''.tsx'' \<longrightarrow> detectFileType n = Some ''typescript''"
    using detectFileType_table[OF named_patterns(2), of n] by (simp add: pattern_test_def)
next
  show "endsWith n ''.py'' \<longrightarrow> detectFileType n = Some ''python''"
    using detectFileType_table[OF named_patterns(3), of n] by (simp add: pattern_test_def)
next
  show "endsWith n ''.js'' \<or> endsWith n ''.mjs'' \<or> endsWith n ''.cjs'' \<longrightarrow>
      detectFileType n = Some ''javascript''"
    using detectFileType_table[OF named_patterns(1), of n] by (simp add: pattern_test_def)
next
  show "files result < cap \<longrightarrow>
      scanEntries (File n # rest) cap result rel' =
        scanEntries rest cap (scanFile rel' n result) rel'"
    by (simp add: scanEntries_File)
next
  show "forget_directories (snd (scanDirectory d cap result rel')) =
     fold visit (take (cap - files result) (eligibleFiles rel' d)) (forget_directories result)"
    by (rule scan_visits(1))
next
  show "files (snd (scanDirectory d cap result rel')) =
     files result + length (take (cap - files result) (eligibleFiles rel' d))"
    by (simp add: scan_files(1))
next
  show "bucket (filesByType (snd (scanDirectory d cap result rel'))) ty =
     bucket (filesByType result) ty +
     length (filesOfType ty (take (cap - files result) (eligibleFiles rel' d)))"
    by (rule scan_bucket)
next
  show "sum_list (map snd (filesByType (snd (scanDirectory d cap result rel')))) =
     sum_list (map snd (filesByType result)) +
     length (typedFiles (take (cap - files result) (eligibleFiles rel' d)))"
    by (rule scan_sum_filesByType)
next
  show "sum_list (map snd (filesByType result)) \<le> files result \<longrightarrow>
      sum_list (map snd (filesByType (snd (scanDirectory d cap result rel')))) \<le>
        files (snd (scanDirectory d cap result rel'))"
    using scan_typed_bound by blast
next
  show "fs root = Some (DirectoryNode (Readable es)) \<longrightarrow>
      (\<exists>res. analyzeProject fs root t0 t1 = Inr res \<and>
         totalFiles res = length (take maxFiles (eligibleFiles [] (Readable es))) \<and>
         (\<forall>t. bucket (lr_filesByType res) t =
                length (filesOfType t (take maxFiles (eligibleFiles [] (Readable es))))) \<and>
         sum_list (map snd (lr_filesByType res)) =
           length (typedFiles (take maxFiles (eligibleFiles [] (Readable es)))) \<and>
         sum_list (map snd (lr_filesByType res)) \<le> totalFiles res)"
  proof
    assume root: "fs root = Some (DirectoryNode (Readable es))"
    let ?scan = "snd (scanDirectory (Readable es) maxFiles emptyResult [])"
    let ?visited = "take maxFiles (eligibleFiles [] (Readable es))"
    have count: "files ?scan = length ?visited"
      by (simp add: scan_files(1) emptyResult_def)
    have buckets: "bucket (filesByType ?scan) t = length (filesOfType t ?visited)" for t
      using scan_bucket[of "Readable es" maxFiles emptyResult "[]" t]
      by (simp add: emptyResult_def bucket_def)
    have total: "sum_list (map snd (filesByType ?scan)) = length (typedFiles ?visited)"
      using scan_sum_filesByType[of "Readable es" maxFiles emptyResult "[]"]
      by (simp add: emptyResult_def)
    have bound: "sum_list (map snd (filesByType ?scan)) \<le> files ?scan"
      unfolding total count by (rule length_typedFiles)
    from count buckets total bound
    show "\<exists>res. analyzeProject fs root t0 t1 = Inr res \<and>
         totalFiles res = length (take maxFiles (eligibleFiles [] (Readable es))) \<and>
         (\<forall>t. bucket (lr_filesByType res) t =
                length (filesOfType t (take maxFiles (eligibleFiles [] (Readable es))))) \<and>
         sum_list (map snd (lr_filesByType res)) =
           length (typedFiles (take maxFiles (eligibleFiles [] (Readable es)))) \<and>
         sum_list (map snd (lr_filesByType res)) \<le> totalFiles res"
      using root by (simp add: analyzeProject_Readable)
  qed
qed

theorem file_types_counted_witness:
  "(''typescript'', [''.ts'', ''.tsx'']) \<in> set FILE_PATTERNS \<and>
   pattern_test [''.ts'', ''.tsx''] ''index.ts'' \<and>
   detectFileType ''index.ts'' = Some ''typescript'' \<and>
   map_of (filesByType (scanFile [] ''index.ts'' emptyResult)) = [''typescript'' \<mapsto> 1] \<and>
   files (scanFile [] ''index.ts'' emptyResult) = 1 \<and>
   files emptyResult < 10 \<and>
   scanEntries [File ''index.ts''] 10 emptyResult [] =
     (False, \<lparr>files = 1, directories = 0, filesByType = [(''typescript'', 1)], agentFiles = []\<rparr>) \<and>
   (\<exists>res. analyzeProject [''/project'' \<mapsto> DirectoryNode (Readable project_area)] ''/project'' 0 1 = Inr res \<and>
      totalFiles res = 10 \<and>
      bucket (lr_filesByType res) ''typescript'' = 6 \<and>
      bucket (lr_filesByType res) ''markdown'' = 2 \<and>
      bucket (lr_filesByType res) ''json'' = 1 \<and>
      bucket (lr_filesByType res) ''python'' = 0 \<and>
      sum_list (map snd (lr_filesByType res)) = 9)"
proof -
  let ?fs = "[''/project'' \<mapsto> DirectoryNode (Readable project_area)]"
  note inst = file_types_counted[of "[]" "''index.ts''" emptyResult emptyResult 10 "[]" "[]"
          Unreadable "''typescript''" ?fs "''/project''" project_area 0 1]
  have visited: "take maxFiles (eligibleFiles [] (Readable project_area)) =
     [(''src'', ''index.ts''), (''src'', ''cli.ts''), (''src'', ''util.ts''),
      (''src'', ''types.ts''), (''src/commands'', ''learn.ts''),
      (''src/commands'', ''index.ts''), (''docs'', ''guide.md''),
      ([], ''package.json''), ([], ''README.md''), ([], ''LICENSE'')]"
    unfolding eligibleFiles_project_area by (simp add: maxFiles_def)
  have one: "(''typescript'', [''.ts'', ''.tsx'']) \<in> set FILE_PATTERNS \<and>
     pattern_test [''.ts'', ''.tsx''] ''index.ts'' \<and>
     detectFileType ''index.ts'' = Some ''typescript'' \<and>
     map_of (filesByType (scanFile [] ''index.ts'' emptyResult)) = [''typescript'' \<mapsto> 1] \<and>
     files (scanFile [] ''index.ts'' emptyResult) = 1"
    using inst named_patterns(2)
    by (auto simp: pattern_test_def endsWith_def suffix_to_prefix emptyResult_def)
  have step: "files emptyResult < 10 \<and>
     scanEntries [File ''index.ts''] 10 emptyResult [] =
       (False, \<lparr>files = 1, directories = 0, filesByType = [(''typescript'', 1)], agentFiles = []\<rparr>)"
    using inst
    by (simp add: emptyResult_def scanFile_def project_area_file_types increment_def)
  from inst obtain res where res: "analyzeProject ?fs ''/project'' 0 1 = Inr res"
    and total: "totalFiles res = length (take maxFiles (eligibleFiles [] (Readable project_area)))"
    and buckets: "\<And>t. bucket (lr_filesByType res) t =
                length (filesOfType t (take maxFiles (eligibleFiles [] (Readable project_area))))"
    and typed: "sum_list (map snd (lr_filesByType res)) =
           length (typedFiles (take maxFiles (eligibleFiles [] (Readable project_area))))"
    by auto
  have "totalFiles res = 10 \<and>
      bucket (lr_filesByType res) ''typescript'' = 6 \<and>
      bucket (lr_filesByType res) ''markdown'' = 2 \<and>
      bucket (lr_filesByType res) ''json'' = 1 \<and>
      bucket (lr_filesByType res) ''python'' = 0 \<and>
      sum_list (map snd (lr_filesByType res)) = 9"
    unfolding total buckets typed visited
    by (simp add: filesOfType_def typedFiles_def project_area_file_types)
  with res one step show ?thesis
    by blast
qed

text \<open>
  C6. The walk records, in the order it meets them and with the path relative to the
  root (the names of the directories from the root down, joined, and the file name),
  exactly the files named \<open>AGENTS.md\<close> among the files it visits before the cap is
  reached: the eligible files, at whatever depth, up to the room the cap leaves. So
  does \<open>analyzeProject\<close> with its cap of 10,000.
\<close>

theorem marker_files_recorded:
  "agentFiles (snd (scanDirectory d cap result rel)) =
     agentFiles result @ markerPaths (take (cap - files result) (eligibleFiles rel d)) \<and>
   (fs root = Some (DirectoryNode (Readable es)) \<longrightarrow>
      (\<exists>res. analyzeProject fs root t0 t1 = Inr res \<and>
         lr_agentFiles res = markerPaths (take maxFiles (eligibleFiles [] (Readable es)))))"
  using scan_agentFiles[of "Readable es" maxFiles emptyResult "[]"]
  by (simp add: scan_agentFiles analyzeProject_Readable) (simp add: emptyResult_def)

theorem marker_files_recorded_witness:
  "\<exists>res. analyzeProject [''/project'' \<mapsto> DirectoryNode (Readable marked_tree)] ''/project'' 0 1 = Inr res \<and>
     lr_agentFiles res = [''AGENTS.md'', ''src/commands/learn/AGENTS.md'']"
  using marker_files_recorded[of Unreadable 0 emptyResult "[]"
          "[''/project'' \<mapsto> DirectoryNode (Readable marked_tree)]" "''/project''" marked_tree 0 1]
  by (simp add: eligibleFiles_marked_tree[simplified] maxFiles_def markerPaths_def path_join_def)

text \<open>
  C7. Two runs of \<open>analyzeProject\<close> on the same file system and root, which differ in
  what the clock shows, return results that differ in \<open>durationMs\<close> at most: in
  particular the same \<open>totalFiles\<close>, the same \<open>totalDirectories\<close> and the same
  \<open>truncated\<close>, or the same error.
\<close>

theorem partitioner_deterministic:
  "map_sum id partition_outcome (analyzeProject fs root t0 t1) =
     map_sum id partition_outcome (analyzeProject fs root t0' t1') \<and>
   analyzeProject fs root t0' t1' =
     map_sum id (\<lambda>res. res\<lparr>durationMs := t1' - t0'\<rparr>) (analyzeProject fs root t0 t1)"
  by (simp add: analyzeProject_def partition_outcome_def Let_def
        split: option.split inode.split dir.split prod.split)

theorem partitioner_deterministic_witness:
  "map_sum id partition_outcome
     (analyzeProject [''/project'' \<mapsto> DirectoryNode (Readable project_area)] ''/project'' 0 5) =
   map_sum id partition_outcome
     (analyzeProject [''/project'' \<mapsto> DirectoryNode (Readable project_area)] ''/project'' 100 250)"
  using partitioner_deterministic[of "[''/project'' \<mapsto> DirectoryNode (Readable project_area)]"
          "''/project''" 0 5 100 250]
  by simp

text \<open>
  C8. The claim: \<open>projectTypes\<close> is never empty; it holds the types whose indicator
  file is present at top level, and is exactly \<open>['unknown']\<close> when none is. The list is
  never empty indeed. But \<open>detectProjectTypes\<close> does not give \<open>['unknown']\<close> for every
  root without an indicator file. For an indicator with a \<open>*\<close> it builds a regular
  expression that is not anchored and whose dot is not escaped, so that \<open>*.sln\<close> is
  found in any name that has a character followed by \<open>sln\<close>: a root whose only file is
  \<open>my_sln.bak\<close> holds no file that an indicator names or matches, and its
  \<open>projectTypes\<close> is \<open>['dotnet']\<close>.
\<close>

theorem glob_indicator_overmatches:
  "detectProjectTypes root fileNames \<noteq> [] \<and>
   \<not> list_ex (indicatorPresent [''my_sln.bak'']) (concat (map snd PROJECT_INDICATORS)) \<and>
   detectProjectTypes root [''my_sln.bak''] = [''dotnet''] \<and>
   analyzeProject [root \<mapsto> DirectoryNode (Readable [File ''my_sln.bak''])] root t0 t1 =
     Inr \<lparr>rootPath = root, totalFiles = 1, totalDirectories = 0, projectTypes = [''dotnet''],
          lr_filesByType = [], lr_agentFiles = [], durationMs = t1 - t0, truncated = False\<rparr>"
proof (intro conjI)
  show "detectProjectTypes root fileNames \<noteq> []"
    by (rule detectProjectTypes_nonempty)
next
  show "\<not> list_ex (indicatorPresent [''my_sln.bak'']) (concat (map snd PROJECT_INDICATORS))"
    by (rule no_indicator_file)
next
  show "detectProjectTypes root [''my_sln.bak''] = [''dotnet'']"
    by (rule backup_types)
next
  show "analyzeProject [root \<mapsto> DirectoryNode (Readable [File ''my_sln.bak''])] root t0 t1 =
     Inr \<lparr>rootPath = root, totalFiles = 1, totalDirectories = 0, projectTypes = [''dotnet''],
          lr_filesByType = [], lr_agentFiles = [], durationMs = t1 - t0, truncated = False\<rparr>"
    by (simp add: analyzeProject_Readable backup_types maxFiles_def emptyResult_def
          scanDirectory.simps scanFile_def backup_file_type)
qed

text \<open>
  C9. \<open>loadContextFiles\<close> returns \<open>success = true\<close> exactly when it produced at least
  one per-file result and every per-file result succeeded. Its per-file results are
  those of \<open>loadContextFile\<close> for a first part of the path list, for the whole list when
  the clock never passes the time limit; then \<open>success\<close> holds exactly when the list is
  not empty and every file of it loads. With an empty list \<open>success\<close> is false and
  \<open>errors\<close> is empty, and any result that failed makes \<open>success\<close> false.
\<close>

theorem combined_success:
  "clr_success (loadContextFiles lib fs clock filePaths cwd) =
     (clr_files (loadContextFiles lib fs clock filePaths cwd) \<noteq> [] \<and>
      list_all success (clr_files (loadContextFiles lib fs clock filePaths cwd))) \<and>
   clr_files (loadContextFiles lib fs clock filePaths cwd) =
     map (\<lambda>p. loadContextFile lib fs p cwd)
       (take (length (clr_files (loadContextFiles lib fs clock filePaths cwd))) filePaths) \<and>
   \<not> clr_success (loadContextFiles lib fs clock [] cwd) \<and>
   clr_files (loadContextFiles lib fs clock [] cwd) = [] \<and>
   clr_errors (loadContextFiles lib fs clock [] cwd) = [] \<and>
   (\<forall>r \<in> set (clr_files (loadContextFiles lib fs clock filePaths cwd)).
      \<not> success r \<longrightarrow> \<not> clr_success (loadContextFiles lib fs clock filePaths cwd)) \<and>
   ((\<forall>i < length filePaths. clock (Suc i) - clock 0 \<le> MAX_LOAD_TIME_MS) \<longrightarrow>
      clr_files (loadContextFiles lib fs clock filePaths cwd) =
        map (\<lambda>p. loadContextFile lib fs p cwd) filePaths \<and>
      clr_success (loadContextFiles lib fs clock filePaths cwd) =
        (filePaths \<noteq> [] \<and> (\<forall>p \<in> set filePaths. success (loadContextFile lib fs p cwd))))"
proof -
  let ?res = "loadContextFiles lib fs clock filePaths cwd"
  let ?load = "\<lambda>p. loadContextFile lib fs p cwd"
  have iff: "clr_success ?res = (clr_files ?res \<noteq> [] \<and> list_all success (clr_files ?res))"
    by (rule loadContextFiles_fields(3))
  obtain k where k: "k \<le> length filePaths" "clr_files ?res = map ?load (take k filePaths)"
    using results_loop[of filePaths lib fs clock "clock 0" cwd 1
            "\<lparr>results = [], errors = [], contents = [], totalSize = 0\<rparr>"]
    by (auto simp: loadContextFiles_fields(1))
  then have "length (clr_files ?res) = k"
    by simp
  with k(2) have part: "clr_files ?res = map ?load (take (length (clr_files ?res)) filePaths)"
    by simp
  have empty: "\<not> clr_success (loadContextFiles lib fs clock [] cwd) \<and>
      clr_files (loadContextFiles lib fs clock [] cwd) = [] \<and>
      clr_errors (loadContextFiles lib fs clock [] cwd) = []"
    by (simp add: loadContextFiles_fields)
  have flips: "\<forall>r \<in> set (clr_files ?res). \<not> success r \<longrightarrow> \<not> clr_success ?res"
    unfolding iff by (auto simp: list_all_iff)
  have whole: "(\<forall>i < length filePaths. clock (Suc i) - clock 0 \<le> MAX_LOAD_TIME_MS) \<longrightarrow>
      clr_files ?res = map ?load filePaths \<and>
      clr_success ?res = (filePaths \<noteq> [] \<and> (\<forall>p \<in> set filePaths. success (?load p)))"
  proof
    assume "\<forall>i < length filePaths. clock (Suc i) - clock 0 \<le> MAX_LOAD_TIME_MS"
    then have "clr_files ?res = map ?load filePaths"
      using results_loop_in_time[of filePaths clock 1 "clock 0" lib fs cwd
              "\<lparr>results = [], errors = [], contents = [], totalSize = 0\<rparr>"]
      by (simp add: loadContextFiles_fields(1))
    then show "clr_files ?res = map ?load filePaths \<and>
      clr_success ?res = (filePaths \<noteq> [] \<and> (\<forall>p \<in> set filePaths. success (?load p)))"
      unfolding iff by (simp add: list_all_iff)
  qed
  from iff part empty flips whole show ?thesis
    by blast
qed

theorem combined_success_witness:
  "clr_success (loadContextFiles example_platform example_storage int [''notes.md''] ''/work'') \<and>
   \<not> clr_success
        (loadContextFiles example_platform example_storage int [''notes.md'', ''big.md''] ''/work'') \<and>
   \<not> clr_success (loadContextFiles example_platform example_storage int [] ''/work'')"
proof -
  have in_time: "\<forall>i < length ps. int (Suc i) - int 0 \<le> MAX_LOAD_TIME_MS"
    if "length ps \<le> 2" for ps :: "string list"
    using that by (auto simp: MAX_LOAD_TIME_MS_def)
  from combined_success[of example_platform example_storage int "[''notes.md'']" "''/work''"]
    in_time[of "[''notes.md'']"]
  have one: "clr_success (loadContextFiles example_platform example_storage int [''notes.md''] ''/work'')"
    by (simp add: example_loads)
  from combined_success[of example_platform example_storage int "[''notes.md'', ''big.md'']" "''/work''"]
    in_time[of "[''notes.md'', ''big.md'']"]
  have two: "\<not> clr_success
        (loadContextFiles example_platform example_storage int [''notes.md'', ''big.md''] ''/work'')"
    by (simp add: example_loads failed_def)
  from combined_success[of example_platform example_storage int "[]" "''/work''"]
  have none: "\<not> clr_success (loadContextFiles example_platform example_storage int [] ''/work'')"
    by blast
  from one two none show ?thesis
    by blast
qed

text \<open>
  C10. \<open>loadContextFile\<close> always returns a result (no call it makes can throw past
  it). With \<open>p\<close> the resolved path and \<open>ext\<close> its extension in lower case: when nothing
  exists at \<open>p\<close>, when \<open>ext\<close> is not one of \<open>.md\<close>, \<open>.markdown\<close>, \<open>.txt\<close>, and when the
  size is more than 100 * 1024 bytes, the result has \<open>success = false\<close>, an error and no
  content (the error of the first check that fails, in this order). \<open>success = true\<close>
  comes only for an existing file with a valid extension and a size within the limit,
  and then with the text of the file and that size; every such file that can be read
  gives it. A result without success has an error, no content and no size.
\<close>

theorem context_file_checked:
  "path (loadContextFile lib fs filePath cwd) = resolvedPath lib filePath cwd \<and>
   (fs (resolvedPath lib filePath cwd) = None \<longrightarrow>
      loadContextFile lib fs filePath cwd =
        failed (resolvedPath lib filePath cwd)
          (ContextFileNotFound (resolvedPath lib filePath cwd))) \<and>
   (fs (resolvedPath lib filePath cwd) \<noteq> None \<and>
    toLowerCase lib (extname lib (resolvedPath lib filePath cwd)) \<notin> set [''.md'', ''.markdown'', ''.txt''] \<longrightarrow>
      loadContextFile lib fs filePath cwd =
        failed (resolvedPath lib filePath cwd)
          (InvalidFormat (toLowerCase lib (extname lib (resolvedPath lib filePath cwd))))) \<and>
   (\<forall>file n. fs (resolvedPath lib filePath cwd) = Some file \<and> statSize file = Some n \<and>
        n > 100 * 1024 \<longrightarrow>
      \<not> success (loadContextFile lib fs filePath cwd) \<and>
      (toLowerCase lib (extname lib (resolvedPath lib filePath cwd)) \<in> set [''.md'', ''.markdown'', ''.txt'']
         \<longrightarrow> loadContextFile lib fs filePath cwd =
               failed (resolvedPath lib filePath cwd) (ContextFileTooLarge n))) \<and>
   (success (loadContextFile lib fs filePath cwd) \<longrightarrow>
      (\<exists>file n text. fs (resolvedPath lib filePath cwd) = Some file \<and>
         toLowerCase lib (extname lib (resolvedPath lib filePath cwd)) \<in> set [''.md'', ''.markdown'', ''.txt''] \<and>
         statSize file = Some n \<and> n \<le> 100 * 1024 \<and> readText file = Some text \<and>
         content (loadContextFile lib fs filePath cwd) = Some text \<and>
         sizeBytes (loadContextFile lib fs filePath cwd) = Some n \<and>
         error (loadContextFile lib fs filePath cwd) = None)) \<and>
   (\<forall>file n text. fs (resolvedPath lib filePath cwd) = Some file \<and>
        toLowerCase lib (extname lib (resolvedPath lib filePath cwd)) \<in> set [''.md'', ''.markdown'', ''.txt''] \<and>
        statSize file = Some n \<and> n \<le> 100 * 1024 \<and> readText file = Some text \<longrightarrow>
      loadContextFile lib fs filePath cwd =
        \<lparr>path = resolvedPath lib filePath cwd, success = True, content = Some text,
         sizeBytes = Some n, error = None\<rparr>) \<and>
   (\<not> success (loadContextFile lib fs filePath cwd) \<longrightarrow>
      content (loadContextFile lib fs filePath cwd) = None \<and>
      sizeBytes (loadContextFile lib fs filePath cwd) = None \<and>
      error (loadContextFile lib fs filePath cwd) \<noteq> None)"
  unfolding loadContextFile_def validateContextFileFormat_def validExtensions_def
    MAX_CONTEXT_FILE_SIZE_def failed_def Let_def
  by (auto split: option.splits)

theorem context_file_checked_witness:
  "success (loadContextFile example_platform example_storage ''notes.md'' ''/work'') \<and>
   content (loadContextFile example_platform example_storage ''notes.md'' ''/work'') = Some ''hello'' \<and>
   sizeBytes (loadContextFile example_platform example_storage ''notes.md'' ''/work'') = Some 5 \<and>
   example_storage (resolvedPath example_platform ''big.md'' ''/work'') =
     Some \<lparr>statSize = Some 200000, readText = Some ''big''\<rparr> \<and>
   200000 > (100 * 1024 :: nat) \<and>
   loadContextFile example_platform example_storage ''big.md'' ''/work'' =
     failed ''/work/big.md'' (ContextFileTooLarge 200000) \<and>
   example_storage (resolvedPath example_platform ''missing.md'' ''/work'') = None \<and>
   loadContextFile example_platform example_storage ''missing.md'' ''/work'' =
     failed ''/work/missing.md'' (ContextFileNotFound ''/work/missing.md'')"
  using context_file_checked[of example_platform example_storage "''notes.md''" "''/work''"]
        context_file_checked[of example_platform example_storage "''big.md''" "''/work''"]
        context_file_checked[of example_platform example_storage "''missing.md''" "''/work''"]
  by (simp add: example_loads failed_def resolvedPath_def example_platform_def example_storage_def
        posix_extname_examples)

end
